theory Spec2Isabelle
  imports Main "HOL-Library.AList" "HOL-Library.Char_ord" "HOL-Library.List_Lexorder"
begin

section \<open>Data model of the resource and token API (lastuser\_oauth/views/resource.py)\<close>

text \<open>
  JSON-like documents. A Python dict keeps its keys in insertion order and an assignment
  to an existing key keeps the key's position, which is what \<open>AList.update\<close> does on an
  association list.
\<close>

datatype jv =
    JNull
  | JBool bool
  | JInt int
  | JStr string
  | JList "jv list"
  | JDict "(string \<times> jv) list"

type_synonym dict = "(string \<times> jv) list"

definition has_key :: "dict \<Rightarrow> string \<Rightarrow> bool" where
  "has_key d k = (k \<in> set (map fst d))"

definition jopt :: "string option \<Rightarrow> jv" where
  "jopt x = (case x of None \<Rightarrow> JNull | Some s \<Rightarrow> JStr s)"

text \<open>
  The ORM rows the views read. A row's identity (Python \<open>==\<close> on two mapped objects of
  one class) is its \<open>buid\<close>, a unique column; \<open>org_owners\<close> holds the buid of the
  organization's designated owners team.
\<close>

record organization =
  org_buid :: string
  org_uuid :: string
  org_name :: "string option"
  org_title :: string
  org_owners :: string

record team =
  team_buid :: string
  team_uuid :: string
  team_title :: string
  team_organization :: organization

record oldid =
  oldid_buid :: string
  oldid_uuid :: string

text \<open>
  \<open>user_email\<close> and \<open>user_phone\<close> are the values of \<open>str(user.email)\<close> and
  \<open>str(user.phone)\<close>. \<open>user_organizations_owned\<close> lists each owned organization with
  its \<open>org.teams\<close>.
\<close>

record user =
  user_buid :: string
  user_uuid :: string
  user_username :: "string option"
  user_fullname :: string
  user_timezone :: "string option"
  user_avatar :: "string option"
  user_oldids :: "oldid list"
  user_email :: string
  user_phone :: string
  user_organizations_owned :: "(organization \<times> team list) list"
  user_organizations_memberof :: "organization list"
  user_organizations :: "organization list"
  user_teams :: "team list"

record user_session =
  session_buid :: string

record principal =
  owner_buid :: string
  owner_uuid :: string
  owner_pickername :: string

text \<open>
  \<open>client_user\<close> is the buid of the user who controls the client, \<open>None\<close> for a client
  governed by an organization: the views only test \<open>auth_client.user\<close> for truth and
  pass the client on to the grant lookup.
\<close>

record auth_client =
  client_buid :: string
  client_title :: string
  client_owner :: principal
  client_website :: string
  client_trusted :: bool
  client_namespace :: "string option"
  client_user :: "string option"

record authtoken =
  token_token :: string
  token_user :: "user option"
  token_auth_client :: auth_client
  token_effective_scope :: "string list"

record authclientuserpermissions =
  ucp_auth_client :: string
  ucp_user :: string
  ucp_access_permissions :: string

record authclientteampermissions =
  tcp_auth_client :: string
  tcp_team :: string
  tcp_access_permissions :: string

record db =
  db_authtokens :: "authtoken list"
  db_user_permissions :: "authclientuserpermissions list"
  db_team_permissions :: "authclientteampermissions list"

subsection \<open>Storage lookups\<close>

text \<open>
  Modelled from the spec: the model classes of \<open>lastuser_core.models\<close> are not part of
  the sources. Section 6 lists the collaborator interfaces: token lookup by opaque string,
  grant lookup by (client, user) and by (client, team).
\<close>

definition AuthToken_get :: "db \<Rightarrow> string \<Rightarrow> authtoken option" where
  "AuthToken_get d tok = find (\<lambda>t. token_token t = tok) (db_authtokens d)"

definition AuthClientUserPermissions_get ::
  "db \<Rightarrow> auth_client \<Rightarrow> user \<Rightarrow> authclientuserpermissions option" where
  "AuthClientUserPermissions_get d c u =
     find (\<lambda>p. ucp_auth_client p = client_buid c \<and> ucp_user p = user_buid u)
       (db_user_permissions d)"

definition AuthClientTeamPermissions_all_for ::
  "db \<Rightarrow> auth_client \<Rightarrow> user \<Rightarrow> authclientteampermissions list" where
  "AuthClientTeamPermissions_all_for d c u =
     filter (\<lambda>p. tcp_auth_client p = client_buid c
                \<and> tcp_team p \<in> set (map team_buid (user_teams u)))
       (db_team_permissions d)"

subsection \<open>Python string helpers\<close>

text \<open>\<open>s.split(' ')\<close>: split at every single space; the empty string gives one empty word.\<close>

fun split_space :: "string \<Rightarrow> string list" where
  "split_space [] = [[]]"
| "split_space (c # cs) =
     (if c = CHR '' '' then [] # split_space cs
      else (case split_space cs of
              [] \<Rightarrow> [[c]]
            | w # ws \<Rightarrow> (c # w) # ws))"

text \<open>\<open>item.startswith(p)\<close> and the slice \<open>item[len(p):]\<close>.\<close>

fun startswith :: "string \<Rightarrow> string \<Rightarrow> bool" where
  "startswith s [] = True"
| "startswith [] (p # ps) = False"
| "startswith (c # cs) (p # ps) = (c = p \<and> startswith cs ps)"

section \<open>get\_userinfo\<close>

definition id_fields :: "user \<Rightarrow> dict" where
  "id_fields u =
     [(''userid'', JStr (user_buid u)),
      (''buid'', JStr (user_buid u)),
      (''uuid'', JStr (user_uuid u)),
      (''username'', jopt (user_username u)),
      (''fullname'', JStr (user_fullname u)),
      (''timezone'', jopt (user_timezone u)),
      (''avatar'', jopt (user_avatar u)),
      (''oldids'', JList (map (\<lambda>x. JStr (oldid_buid x)) (user_oldids u))),
      (''olduuids'', JList (map (\<lambda>x. JStr (oldid_uuid x)) (user_oldids u)))]"

definition org_entry :: "organization \<Rightarrow> jv" where
  "org_entry org =
     JDict [(''userid'', JStr (org_buid org)),
            (''buid'', JStr (org_buid org)),
            (''uuid'', JStr (org_uuid org)),
            (''name'', jopt (org_name org)),
            (''title'', JStr (org_title org))]"

definition organizations_doc :: "user \<Rightarrow> jv" where
  "organizations_doc u =
     JDict [(''owner'', JList (map (\<lambda>(org, ts). org_entry org) (user_organizations_owned u))),
            (''member'', JList (map org_entry (user_organizations_memberof u))),
            (''all'', JList (map org_entry (user_organizations u)))]"

text \<open>\<open>team == team.organization.owners\<close> compares two Team rows.\<close>

definition is_owners_team :: "team \<Rightarrow> bool" where
  "is_owners_team t = (team_buid t = org_owners (team_organization t))"

definition team_entry :: "team \<Rightarrow> bool \<Rightarrow> jv" where
  "team_entry t member =
     JDict [(''userid'', JStr (team_buid t)),
            (''buid'', JStr (team_buid t)),
            (''uuid'', JStr (team_uuid t)),
            (''title'', JStr (team_title t)),
            (''org'', JStr (org_buid (team_organization t))),
            (''org_uuid'', JStr (org_uuid (team_organization t))),
            (''owners'', JBool (is_owners_team t)),
            (''member'', JBool member)]"

text \<open>The first loop: \<open>for team in user.teams: teams[team.buid] = {..., 'member': True}\<close>.\<close>

fun teams_direct :: "team list \<Rightarrow> dict \<Rightarrow> dict" where
  "teams_direct [] teams = teams"
| "teams_direct (t # ts) teams =
     teams_direct ts (AList.update (team_buid t) (team_entry t True) teams)"

text \<open>
  The inner loop of the second pass:
  \<open>for team in org.teams: if team.buid not in teams: teams[team.buid] = {..., 'member': False}\<close>.
\<close>

fun teams_of_org :: "team list \<Rightarrow> dict \<Rightarrow> dict" where
  "teams_of_org [] teams = teams"
| "teams_of_org (t # ts) teams =
     teams_of_org ts
       (if team_buid t \<notin> set (map fst teams)
        then AList.update (team_buid t) (team_entry t False) teams
        else teams)"

text \<open>The outer loop: \<open>for org in user.organizations_owned(): for team in org.teams: ...\<close>.\<close>

fun teams_owned :: "(organization \<times> team list) list \<Rightarrow> dict \<Rightarrow> dict" where
  "teams_owned [] teams = teams"
| "teams_owned ((org, ts) # orgs) teams = teams_owned orgs (teams_of_org ts teams)"

text \<open>The team map after both passes.\<close>

definition team_map :: "user \<Rightarrow> string list \<Rightarrow> dict" where
  "team_map u scope =
     (let teams = [];
          teams = (if ''*'' \<in> set scope \<or> ''organizations'' \<in> set scope \<or> ''teams'' \<in> set scope
                      \<or> ''organizations/*'' \<in> set scope \<or> ''teams/*'' \<in> set scope
                   then teams_direct (user_teams u) teams else teams);
          teams = (if ''*'' \<in> set scope \<or> ''teams'' \<in> set scope \<or> ''teams/*'' \<in> set scope
                   then teams_owned (user_organizations_owned u) teams else teams)
      in teams)"

text \<open>
  The permissions block. For a client with a controlling user the key is set only when a
  grant row is found; otherwise the union of the team grants' words is sorted and always
  attached.
\<close>

definition team_permsset :: "db \<Rightarrow> auth_client \<Rightarrow> user \<Rightarrow> string set" where
  "team_permsset d c u =
     (if user_teams u \<noteq> []
      then fold (\<lambda>permob permsset. permsset \<union> set (split_space (tcp_access_permissions permob)))
             (AuthClientTeamPermissions_all_for d c u) {}
      else {})"

definition add_permissions :: "db \<Rightarrow> auth_client \<Rightarrow> user \<Rightarrow> dict \<Rightarrow> dict" where
  "add_permissions d c u userinfo =
     (if client_user c \<noteq> None
      then (case AuthClientUserPermissions_get d c u of
              Some perms \<Rightarrow>
                AList.update ''permissions''
                  (JList (map JStr (split_space (ucp_access_permissions perms)))) userinfo
            | None \<Rightarrow> userinfo)
      else AList.update ''permissions''
             (JList (map JStr (sorted_list_of_set (team_permsset d c u)))) userinfo)"

definition get_userinfo ::
  "db \<Rightarrow> user \<Rightarrow> auth_client \<Rightarrow> string list \<Rightarrow> user_session option \<Rightarrow> bool \<Rightarrow> dict" where
  "get_userinfo d u c scope sess get_permissions =
     (let userinfo = (if ''*'' \<in> set scope \<or> ''id'' \<in> set scope \<or> ''id/*'' \<in> set scope
                      then id_fields u else []);
          userinfo = (case sess of
                        Some s \<Rightarrow> AList.update ''sessionid'' (JStr (session_buid s)) userinfo
                      | None \<Rightarrow> userinfo);
          userinfo = (if ''*'' \<in> set scope \<or> ''email'' \<in> set scope \<or> ''email/*'' \<in> set scope
                      then AList.update ''email'' (JStr (user_email u)) userinfo else userinfo);
          userinfo = (if ''*'' \<in> set scope \<or> ''phone'' \<in> set scope \<or> ''phone/*'' \<in> set scope
                      then AList.update ''phone'' (JStr (user_phone u)) userinfo else userinfo);
          userinfo = (if ''*'' \<in> set scope \<or> ''organizations'' \<in> set scope
                         \<or> ''organizations/*'' \<in> set scope
                      then AList.update ''organizations'' (organizations_doc u) userinfo
                      else userinfo);
          teams = team_map u scope;
          userinfo = (if teams \<noteq> []
                      then AList.update ''teams'' (JList (map snd teams)) userinfo
                      else userinfo);
          userinfo = (if get_permissions then add_permissions d c u userinfo else userinfo)
      in userinfo)"

section \<open>Responses\<close>

record response =
  resp_status_code :: nat
  resp_headers :: "(string \<times> string) list"
  resp_jsonp :: bool
  resp_body :: dict

definition no_cache_headers :: "(string \<times> string) list" where
  "no_cache_headers =
     [(''Cache-Control'', ''private, no-cache, no-store, max-age=0, must-revalidate''),
      (''Pragma'', ''no-cache'')]"

text \<open>Python's \<open>not x\<close> on an optional string: \<open>None\<close> and the empty string are false.\<close>

definition falsy :: "string option \<Rightarrow> bool" where
  "falsy x = (case x of None \<Rightarrow> True | Some s \<Rightarrow> s = [])"

definition resource_error :: "string \<Rightarrow> string option \<Rightarrow> string option \<Rightarrow> response" where
  "resource_error err description uri =
     (let params = [(''status'', JStr ''error''), (''error'', JStr err)];
          params = (case description of
                      None \<Rightarrow> params
                    | Some s \<Rightarrow> if s \<noteq> [] then AList.update ''error_description'' (JStr s) params
                               else params);
          params = (case uri of
                      None \<Rightarrow> params
                    | Some s \<Rightarrow> if s \<noteq> [] then AList.update ''error_uri'' (JStr s) params
                               else params)
      in \<lparr>resp_status_code = 400, resp_headers = no_cache_headers, resp_jsonp = False,
          resp_body = params\<rparr>)"

text \<open>The first argument of \<open>api_result\<close> is a status word or one of the codes 200, 201.\<close>

datatype status_arg = StatusWord string | StatusCode nat

definition api_result :: "status_arg \<Rightarrow> bool \<Rightarrow> dict \<Rightarrow> response" where
  "api_result status jsonp_flag params =
     (let status_code = (case status of
                           StatusCode n \<Rightarrow> if n = 200 \<or> n = 201 then n else 200
                         | StatusWord w \<Rightarrow> 200);
          status' = (case status of
                       StatusCode n \<Rightarrow> if n = 200 \<or> n = 201 then JStr ''ok'' else JInt (int n)
                     | StatusWord w \<Rightarrow> JStr w);
          params = AList.update ''status'' status' params
      in \<lparr>resp_status_code = status_code, resp_headers = no_cache_headers,
          resp_jsonp = jsonp_flag, resp_body = params\<rparr>)"

section \<open>Client access endpoints\<close>

record request_form =
  form_access_token :: "string option"
  form_resource :: "string option"

definition clientinfo :: "authtoken \<Rightarrow> dict" where
  "clientinfo authtoken =
     [(''title'', JStr (client_title (token_auth_client authtoken))),
      (''userid'', JStr (owner_buid (client_owner (token_auth_client authtoken)))),
      (''buid'', JStr (owner_buid (client_owner (token_auth_client authtoken)))),
      (''uuid'', JStr (owner_uuid (client_owner (token_auth_client authtoken)))),
      (''owner_title'', JStr (owner_pickername (client_owner (token_auth_client authtoken)))),
      (''website'', JStr (client_website (token_auth_client authtoken))),
      (''key'', JStr (client_buid (token_auth_client authtoken))),
      (''trusted'', JBool (client_trusted (token_auth_client authtoken)))]"

text \<open>
  In \<open>token_verify\<close> and \<open>token_get_scope\<close> below, the tests before the lookup leave
  only present, non-empty values; the last case of the pattern match is never reached.
\<close>

text \<open>
  The tail shared by both endpoints: \<open>params = {'validity': 120}\<close>, then \<open>userinfo\<close> when
  the token has a user, computed for the calling client \<open>current_auth.auth_client\<close>.
\<close>

definition token_params :: "db \<Rightarrow> auth_client \<Rightarrow> authtoken \<Rightarrow> dict" where
  "token_params d current_client authtoken =
     (let params = [(''validity'', JInt 120)]
      in (case token_user authtoken of
            Some u \<Rightarrow>
              AList.update ''userinfo''
                (JDict (get_userinfo d u current_client (token_effective_scope authtoken)
                          None True)) params
          | None \<Rightarrow> params))"

definition token_verify :: "db \<Rightarrow> auth_client \<Rightarrow> request_form \<Rightarrow> response" where
  "token_verify d current_client form =
     (let token = form_access_token form;
          client_resource = form_resource form
      in if falsy client_resource then resource_error ''no_resource'' None None
         else if client_resource \<noteq> Some ''*'' then resource_error ''unknown_resource'' None None
         else if falsy token then resource_error ''no_token'' None None
         else if falsy (client_namespace current_client)
           then api_result (StatusWord ''error'') False [(''error'', JStr ''client_no_resources'')]
         else (case (token, client_resource, client_namespace current_client) of
                 (Some tok, Some res, Some namespace) \<Rightarrow>
                   (case AuthToken_get d tok of
                      None \<Rightarrow> api_result (StatusWord ''error'') False [(''error'', JStr ''no_token'')]
                    | Some authtoken \<Rightarrow>
                        if namespace @ '':'' @ res \<notin> set (token_effective_scope authtoken)
                           \<and> namespace @ '':*'' \<notin> set (token_effective_scope authtoken)
                        then api_result (StatusWord ''error'') False
                               [(''error'', JStr ''access_denied'')]
                        else api_result (StatusWord ''ok'') False
                               (AList.update ''clientinfo'' (JDict (clientinfo authtoken))
                                  (token_params d current_client authtoken)))
               | _ \<Rightarrow> resource_error ''no_resource'' None None))"

text \<open>
  \<open>for item in authtoken.effective_scope: if item.startswith(nsprefix):
  client_resources.append(item[len(nsprefix):])\<close>
\<close>

fun client_resources_loop :: "string \<Rightarrow> string list \<Rightarrow> string list \<Rightarrow> string list" where
  "client_resources_loop nsprefix [] client_resources = client_resources"
| "client_resources_loop nsprefix (item # items) client_resources =
     client_resources_loop nsprefix items
       (if startswith item nsprefix
        then client_resources @ [drop (length nsprefix) item]
        else client_resources)"

definition token_get_scope :: "db \<Rightarrow> auth_client \<Rightarrow> request_form \<Rightarrow> response" where
  "token_get_scope d current_client form =
     (let token = form_access_token form
      in if falsy token then resource_error ''no_token'' None None
         else if falsy (client_namespace current_client)
           then api_result (StatusWord ''error'') False [(''error'', JStr ''client_no_resources'')]
         else (case (token, client_namespace current_client) of
                 (Some tok, Some namespace) \<Rightarrow>
                   (case AuthToken_get d tok of
                      None \<Rightarrow> api_result (StatusWord ''error'') False [(''error'', JStr ''no_token'')]
                    | Some authtoken \<Rightarrow>
                        (let nsprefix = namespace @ '':'';
                             client_resources =
                               client_resources_loop nsprefix (token_effective_scope authtoken) []
                         in if client_resources = []
                            then api_result (StatusWord ''error'') False
                                   [(''error'', JStr ''no_access'')]
                            else api_result (StatusWord ''ok'') False
                                   (AList.update ''clientinfo''
                                      (JDict (clientinfo authtoken
                                                @ [(''scope'', JList (map JStr client_resources))]))
                                      (token_params d current_client authtoken))))
               | _ \<Rightarrow> resource_error ''no_token'' None None))"

section \<open>Token-based resource endpoints\<close>

datatype error = AttributeError | KeyError string | ValueError | BadRequest string

text \<open>
  The handlers read \<open>authtoken.user\<close> without a test, so \<open>get_userinfo\<close> can be called with
  \<open>user = None\<close>. Then every branch that reads an attribute of the user raises
  AttributeError: the five topic blocks, and \<open>user.teams\<close> in the permissions block of a
  client without a controlling user. For a client with a controlling user the grant lookup
  for (client, \<open>None\<close>) finds no row and nothing is added.
\<close>

definition get_userinfo_of ::
  "db \<Rightarrow> user option \<Rightarrow> auth_client \<Rightarrow> string list \<Rightarrow> user_session option \<Rightarrow> bool
     \<Rightarrow> error + dict" where
  "get_userinfo_of d user c scope sess get_permissions =
     (case user of
        Some u \<Rightarrow> Inr (get_userinfo d u c scope sess get_permissions)
      | None \<Rightarrow>
          if ''*'' \<in> set scope \<or> ''id'' \<in> set scope \<or> ''id/*'' \<in> set scope
             \<or> ''email'' \<in> set scope \<or> ''email/*'' \<in> set scope
             \<or> ''phone'' \<in> set scope \<or> ''phone/*'' \<in> set scope
             \<or> ''organizations'' \<in> set scope \<or> ''organizations/*'' \<in> set scope
             \<or> ''teams'' \<in> set scope \<or> ''teams/*'' \<in> set scope
          then Inl AttributeError
          else (let userinfo = (case sess of
                                  Some s \<Rightarrow> [(''sessionid'', JStr (session_buid s))]
                                | None \<Rightarrow> [])
                in if get_permissions
                   then (if client_user c \<noteq> None then Inr userinfo else Inl AttributeError)
                   else Inr userinfo))"

text \<open>
  \<open>getbool\<close> (coaster.utils) is a parameter: it reads a flag as \<open>True\<close>, \<open>False\<close> or
  \<open>None\<close>. \<open>args\<close> maps parameter names to values.
\<close>

definition resource_id ::
  "db \<Rightarrow> (string \<Rightarrow> bool option) \<Rightarrow> authtoken \<Rightarrow> (string \<rightharpoonup> string) \<Rightarrow> error + dict" where
  "resource_id d getbool authtoken args =
     (case args ''all'' of
        Some v \<Rightarrow>
          if getbool v = Some True
          then get_userinfo_of d (token_user authtoken) (token_auth_client authtoken)
                 (token_effective_scope authtoken) None True
          else get_userinfo_of d (token_user authtoken) (token_auth_client authtoken)
                 [''id''] None False
      | None \<Rightarrow>
          get_userinfo_of d (token_user authtoken) (token_auth_client authtoken)
            [''id''] None False)"

text \<open>
  \<open>urlparse\<close> (urllib.parse) is a parameter. It returns the parts of the URL, of which the
  handler reads the scheme and the network location, or it raises ValueError, which the
  handler does not catch. The handler assigns \<open>authtoken.user.avatar\<close>, so the token is
  returned with the result; an exception leaves it as it was.
\<close>

record parsed_url =
  url_scheme :: string
  url_netloc :: string
  url_hostname :: "string option"

definition resource_avatar_edit ::
  "(string \<Rightarrow> error + parsed_url) \<Rightarrow> authtoken \<Rightarrow> (string \<rightharpoonup> string)
     \<Rightarrow> authtoken \<times> (error + dict)" where
  "resource_avatar_edit urlparse authtoken args =
     (case args ''avatar'' of
        None \<Rightarrow> (authtoken, Inl (KeyError ''avatar''))
      | Some avatar \<Rightarrow>
          (case urlparse avatar of
             Inl e \<Rightarrow> (authtoken, Inl e)
           | Inr parsed \<Rightarrow>
               if url_scheme parsed = ''https'' \<and> url_netloc parsed \<noteq> []
               then (case token_user authtoken of
                       None \<Rightarrow> (authtoken, Inl AttributeError)
                     | Some u \<Rightarrow>
                         (let u' = u\<lparr>user_avatar := Some avatar\<rparr>
                          in (authtoken\<lparr>token_user := Some u'\<rparr>,
                              Inr [(''avatar'', jopt (user_avatar u'))])))
               else (authtoken, Inl (BadRequest ''Invalid avatar URL''))))"

section \<open>Specification vocabulary\<close>

text \<open>
  The spec's ScopeSet: \<open>grants(topic)\<close> is true if the set contains \<open>"*"\<close>, the topic, or
  the topic followed by \<open>"/*"\<close>. The source writes these three membership tests out at each
  use; \<open>grants_topics\<close> below relates the two.
\<close>

definition grants :: "string list \<Rightarrow> string \<Rightarrow> bool" where
  "grants scope topic = (''*'' \<in> set scope \<or> topic \<in> set scope \<or> topic @ ''/*'' \<in> set scope)"

text \<open>
  The spec's \<open>resourcesUnder(namespacePrefix)\<close>: the ordered list of suffixes \<open>r\<close> such that
  \<open>namespacePrefix + ":" + r\<close> is a member of the scope.
\<close>

definition resourcesUnder :: "string \<Rightarrow> string list \<Rightarrow> string list" where
  "resourcesUnder ns scope =
     concat (map (\<lambda>item. if take (length ns + 1) item = ns @ '':''
                          then [drop (length ns + 1) item] else []) scope)"

text \<open>The keys of a document.\<close>

definition dict_keys :: "dict \<Rightarrow> string set" where
  "dict_keys d = fst ` set d"

text \<open>A field of a JSON object.\<close>

definition jfield :: "jv \<Rightarrow> string \<Rightarrow> jv option" where
  "jfield v k = (case v of JDict kv \<Rightarrow> map_of kv k | _ \<Rightarrow> None)"

text \<open>What a caller sees of a response: the HTTP status, and the \<open>status\<close> and \<open>error\<close> fields.\<close>

definition outcome :: "response \<Rightarrow> nat \<times> jv option \<times> jv option" where
  "outcome r = (resp_status_code r, map_of (resp_body r) ''status'', map_of (resp_body r) ''error'')"

text \<open>Every team of every organization the user owns, in the order the second pass walks them.\<close>

definition owned_teams :: "user \<Rightarrow> team list" where
  "owned_teams u = concat (map snd (user_organizations_owned u))"

text \<open>The keys of the \<open>id\<close> topic.\<close>

definition id_keys :: "string set" where
  "id_keys = {''userid'', ''buid'', ''uuid'', ''username'', ''fullname'', ''timezone'',
              ''avatar'', ''oldids'', ''olduuids''}"

text \<open>The key the permissions block adds, if any.\<close>

definition perm_keys :: "db \<Rightarrow> auth_client \<Rightarrow> user \<Rightarrow> string set" where
  "perm_keys d c u =
     (if client_user c \<noteq> None \<and> AuthClientUserPermissions_get d c u = None then {}
      else {''permissions''})"

section \<open>Sample rows and requests\<close>

definition org1 :: organization where
  "org1 = \<lparr>org_buid = ''o1'', org_uuid = ''ou1'', org_name = Some ''acme'', org_title = ''Acme'',
           org_owners = ''t1''\<rparr>"

definition team1 :: team where
  "team1 = \<lparr>team_buid = ''t1'', team_uuid = ''tu1'', team_title = ''Owners'',
            team_organization = org1\<rparr>"

definition team2 :: team where
  "team2 = \<lparr>team_buid = ''t2'', team_uuid = ''tu2'', team_title = ''Staff'',
            team_organization = org1\<rparr>"

definition user0 :: user where
  "user0 = \<lparr>user_buid = ''u0'', user_uuid = ''uu0'', user_username = None,
            user_fullname = ''Nobody'', user_timezone = None, user_avatar = None,
            user_oldids = [], user_email = ''n@example.org'', user_phone = ''None'',
            user_organizations_owned = [], user_organizations_memberof = [],
            user_organizations = [], user_teams = []\<rparr>"

definition user1 :: user where
  "user1 = \<lparr>user_buid = ''u1'', user_uuid = ''uu1'', user_username = Some ''alice'',
            user_fullname = ''Alice'', user_timezone = Some ''UTC'', user_avatar = None,
            user_oldids = [], user_email = ''a@example.org'', user_phone = ''None'',
            user_organizations_owned = [(org1, [team1, team2])],
            user_organizations_memberof = [], user_organizations = [org1],
            user_teams = [team2]\<rparr>"

definition owner1 :: principal where
  "owner1 = \<lparr>owner_buid = ''o1'', owner_uuid = ''ou1'', owner_pickername = ''Acme''\<rparr>"

definition client_crm :: auth_client where
  "client_crm = \<lparr>client_buid = ''c1'', client_title = ''CRM'', client_owner = owner1,
                 client_website = ''https://crm.example.org'', client_trusted = False,
                 client_namespace = Some ''crm'', client_user = None\<rparr>"

definition db0 :: db where
  "db0 = \<lparr>db_authtokens = [], db_user_permissions = [], db_team_permissions = []\<rparr>"

text \<open>A client controlled by a user, without a namespace; three tokens it owns; a store.\<close>

definition client_app :: auth_client where
  "client_app = \<lparr>client_buid = ''c2'', client_title = ''App'', client_owner = owner1,
                 client_website = ''https://app.example.org'', client_trusted = True,
                 client_namespace = None, client_user = Some ''u1''\<rparr>"

definition token1 :: authtoken where
  "token1 = \<lparr>token_token = ''tok1'', token_user = Some user1, token_auth_client = client_app,
             token_effective_scope = [''id'', ''crm:contacts'', ''crm:deals'']\<rparr>"

definition token2 :: authtoken where
  "token2 = \<lparr>token_token = ''tok2'', token_user = None, token_auth_client = client_app,
             token_effective_scope = [''crm:*'']\<rparr>"

definition token3 :: authtoken where
  "token3 = \<lparr>token_token = ''tok3'', token_user = Some user1, token_auth_client = client_app,
             token_effective_scope = [''id'', ''crm:*'', ''crm:deals'']\<rparr>"

definition db1 :: db where
  "db1 = \<lparr>db_authtokens = [token1, token2, token3],
          db_user_permissions =
            [\<lparr>ucp_auth_client = ''c2'', ucp_user = ''u1'', ucp_access_permissions = ''admin''\<rparr>],
          db_team_permissions =
            [\<lparr>tcp_auth_client = ''c1'', tcp_team = ''t2'', tcp_access_permissions = ''write read''\<rparr>,
             \<lparr>tcp_auth_client = ''c1'', tcp_team = ''t1'', tcp_access_permissions = ''owner''\<rparr>,
             \<lparr>tcp_auth_client = ''c1'', tcp_team = ''t2'', tcp_access_permissions = ''read''\<rparr>]\<rparr>"

text \<open>The form of a request with the given \<open>access_token\<close> and \<open>resource\<close>.\<close>

definition form_of :: "string option \<Rightarrow> string option \<Rightarrow> request_form" where
  "form_of tok res = \<lparr>form_access_token = tok, form_resource = res\<rparr>"

text \<open>A reading of the \<open>all\<close> flag for the sample requests.\<close>

definition sample_getbool :: "string \<Rightarrow> bool option" where
  "sample_getbool v =
     (if v \<in> set [''1'', ''true'', ''yes''] then Some True
      else if v \<in> set [''0'', ''false'', ''no''] then Some False
      else None)"

text \<open>
  urllib's \<open>urlparse\<close> on a \<open>str\<close>, as far as the requests below need it. The
  scheme is what precedes the first colon when that is a letter followed by letters,
  digits, \<open>+\<close>, \<open>-\<close> or \<open>.\<close>, in lower case. The network location follows \<open>//\<close> and ends
  before the first \<open>/\<close>, \<open>?\<close> or \<open>#\<close>; a network location with one of \<open>[\<close> and \<open>]\<close> but
  not the other raises ValueError ("Invalid IPv6 URL"). The host name is the network
  location after the last \<open>@\<close>, between the brackets if there are any and up to the first
  colon otherwise, and \<open>None\<close> when that is empty. The removal of control characters and the
  checks of non-ASCII and bracketed hosts of recent versions are left out.
\<close>

definition ascii_lower :: "char \<Rightarrow> char" where
  "ascii_lower ch =
     (case map_of (zip ''ABCDEFGHIJKLMNOPQRSTUVWXYZ'' ''abcdefghijklmnopqrstuvwxyz'') ch of
        Some l \<Rightarrow> l
      | None \<Rightarrow> ch)"

definition ascii_letters :: string where
  "ascii_letters = ''abcdefghijklmnopqrstuvwxyzABCDEFGHIJKLMNOPQRSTUVWXYZ''"

definition scheme_chars :: string where
  "scheme_chars = ascii_letters @ ''0123456789+-.''"

definition hostname_of :: "string \<Rightarrow> string option" where
  "hostname_of netloc =
     (let hostinfo = rev (takeWhile (\<lambda>ch. ch \<noteq> CHR ''@'') (rev netloc));
          hostname = (if CHR ''['' \<in> set hostinfo
                      then takeWhile (\<lambda>ch. ch \<noteq> CHR '']'')
                             (drop 1 (dropWhile (\<lambda>ch. ch \<noteq> CHR ''['') hostinfo))
                      else takeWhile (\<lambda>ch. ch \<noteq> CHR '':'') hostinfo)
      in if hostname = [] then None
         else Some (map ascii_lower (takeWhile (\<lambda>ch. ch \<noteq> CHR ''%'') hostname)
                      @ dropWhile (\<lambda>ch. ch \<noteq> CHR ''%'') hostname))"

definition sample_urlparse :: "string \<Rightarrow> error + parsed_url" where
  "sample_urlparse url =
     (let prefix = takeWhile (\<lambda>ch. ch \<noteq> CHR '':'') url;
          has_scheme = (length prefix < length url
                        \<and> (case prefix of [] \<Rightarrow> False | ch # _ \<Rightarrow> ch \<in> set ascii_letters)
                        \<and> list_all (\<lambda>ch. ch \<in> set scheme_chars) prefix);
          scheme = (if has_scheme then map ascii_lower prefix else []);
          rest = (if has_scheme then drop (length prefix + 1) url else url);
          netloc = (if take 2 rest = ''//''
                    then takeWhile (\<lambda>ch. ch \<notin> set ''/?#'') (drop 2 rest)
                    else [])
      in if (CHR ''['' \<in> set netloc) \<noteq> (CHR '']'' \<in> set netloc)
         then Inl ValueError
         else Inr \<lparr>url_scheme = scheme, url_netloc = netloc,
                   url_hostname = hostname_of netloc\<rparr>)"

section \<open>Properties\<close>

lemma has_key_keys: "has_key d k \<longleftrightarrow> k \<in> dict_keys d"
  by (simp add: has_key_def dict_keys_def)

lemma keys_update: "dict_keys (AList.update k v d) = insert k (dict_keys d)"
  by (simp add: dict_keys_def dom_update)

lemma keys_teams_direct: "dict_keys (teams_direct ts m) = dict_keys m \<union> team_buid ` set ts"
  by (induction ts arbitrary: m) (auto simp: keys_update)

lemma keys_teams_of_org: "dict_keys (teams_of_org ts m) = dict_keys m \<union> team_buid ` set ts"
proof (induction ts arbitrary: m)
  case Nil
  then show ?case by simp
next
  case (Cons t ts)
  have "team_buid t \<in> set (map fst m) \<longleftrightarrow> team_buid t \<in> dict_keys m"
    by (simp add: dict_keys_def)
  then show ?case
    using Cons.IH by (auto simp: keys_update)
qed

lemma keys_teams_owned:
  "dict_keys (teams_owned orgs m) = dict_keys m \<union> team_buid ` set (concat (map snd orgs))"
proof (induction orgs arbitrary: m)
  case Nil
  then show ?case by simp
next
  case (Cons a orgs)
  obtain org ts where a: "a = (org, ts)" by (cases a)
  show ?case
    unfolding a by (simp add: Cons.IH keys_teams_of_org Un_assoc image_Un)
qed

lemma keys_empty_iff: "dict_keys m = {} \<longleftrightarrow> m = []"
  by (simp add: dict_keys_def)

lemma keys_Nil: "dict_keys [] = {}"
  by (simp add: dict_keys_def)

lemma keys_team_map:
  "dict_keys (team_map u S) =
     (if grants S ''organizations'' \<or> grants S ''teams'' then team_buid ` set (user_teams u) else {})
     \<union> (if grants S ''teams'' then team_buid ` set (owned_teams u) else {})"
  by (simp add: team_map_def grants_def keys_teams_owned keys_teams_direct owned_teams_def keys_Nil)

lemma keys_id_fields: "dict_keys (id_fields u) = id_keys"
  by (auto simp: dict_keys_def id_fields_def id_keys_def)

lemma keys_add_permissions:
  "dict_keys (add_permissions d c u m) = dict_keys m \<union> perm_keys d c u"
  by (auto simp: add_permissions_def perm_keys_def keys_update split: option.splits)

lemma team_map_nonempty:
  "team_map u S \<noteq> [] \<longleftrightarrow>
     (grants S ''organizations'' \<or> grants S ''teams'') \<and> user_teams u \<noteq> []
     \<or> grants S ''teams'' \<and> owned_teams u \<noteq> []"
proof -
  have "team_map u S \<noteq> [] \<longleftrightarrow> dict_keys (team_map u S) \<noteq> {}"
    by (simp add: keys_empty_iff)
  then show ?thesis
    by (simp add: keys_team_map)
qed

lemma grants_topics:
  "(''*'' \<in> set S \<or> ''id'' \<in> set S \<or> ''id/*'' \<in> set S) = grants S ''id''"
  "(''*'' \<in> set S \<or> ''email'' \<in> set S \<or> ''email/*'' \<in> set S) = grants S ''email''"
  "(''*'' \<in> set S \<or> ''phone'' \<in> set S \<or> ''phone/*'' \<in> set S) = grants S ''phone''"
  "(''*'' \<in> set S \<or> ''organizations'' \<in> set S \<or> ''organizations/*'' \<in> set S)
     = grants S ''organizations''"
  "(''*'' \<in> set S \<or> ''teams'' \<in> set S \<or> ''teams/*'' \<in> set S) = grants S ''teams''"
  by (simp_all add: grants_def)

lemma keys_if_update:
  "dict_keys (if b then AList.update k v m else m) = dict_keys m \<union> (if b then {k} else {})"
  by (simp add: keys_update)

lemma keys_case_update:
  "dict_keys (case x of Some s \<Rightarrow> AList.update k (f s) m | None \<Rightarrow> m)
     = dict_keys m \<union> (if x \<noteq> None then {k} else {})"
  by (simp add: keys_update split: option.splits)

lemma keys_if_id:
  "dict_keys (if b then id_fields u else []) = (if b then id_keys else {})"
  by (simp add: keys_id_fields keys_Nil)

lemma keys_if_perms:
  "dict_keys (if gp then add_permissions d c u m else m)
     = dict_keys m \<union> (if gp then perm_keys d c u else {})"
  by (simp add: keys_add_permissions)

lemma keys_get_userinfo:
  "dict_keys (get_userinfo d u c S sess gp) =
     (if grants S ''id'' then id_keys else {})
     \<union> (if sess \<noteq> None then {''sessionid''} else {})
     \<union> (if grants S ''email'' then {''email''} else {})
     \<union> (if grants S ''phone'' then {''phone''} else {})
     \<union> (if grants S ''organizations'' then {''organizations''} else {})
     \<union> (if team_map u S \<noteq> [] then {''teams''} else {})
     \<union> (if gp then perm_keys d c u else {})"
  unfolding get_userinfo_def Let_def grants_topics
  by (simp only: keys_if_update keys_case_update keys_if_id keys_if_perms)

lemma has_key_get_userinfo:
  "has_key (get_userinfo d u c S sess gp) k \<longleftrightarrow>
     k \<in> (if grants S ''id'' then id_keys else {})
     \<union> (if sess \<noteq> None then {''sessionid''} else {})
     \<union> (if grants S ''email'' then {''email''} else {})
     \<union> (if grants S ''phone'' then {''phone''} else {})
     \<union> (if grants S ''organizations'' then {''organizations''} else {})
     \<union> (if team_map u S \<noteq> [] then {''teams''} else {})
     \<union> (if gp then perm_keys d c u else {})"
  by (simp only: has_key_keys keys_get_userinfo)

lemma grants_mono: "grants S t \<Longrightarrow> grants (S @ X) t"
  by (auto simp: grants_def)

lemma team_map_mono: "team_map u S \<noteq> [] \<Longrightarrow> team_map u (S @ X) \<noteq> []"
  by (auto simp: team_map_nonempty dest: grants_mono)

lemma get_userinfo_mono:
  "has_key (get_userinfo d u c S sess gp) k \<Longrightarrow> has_key (get_userinfo d u c (S @ X) sess gp) k"
proof -
  have sub: "\<And>a b (A :: string set). (a \<Longrightarrow> b) \<Longrightarrow> (if a then A else {}) \<subseteq> (if b then A else {})"
    by simp
  have "dict_keys (get_userinfo d u c S sess gp) \<subseteq> dict_keys (get_userinfo d u c (S @ X) sess gp)"
    unfolding keys_get_userinfo
    by (intro Un_mono sub grants_mono team_map_mono subset_refl)
  then show "has_key (get_userinfo d u c S sess gp) k
               \<Longrightarrow> has_key (get_userinfo d u c (S @ X) sess gp) k"
    unfolding has_key_keys by blast
qed

lemma gu_id: "k \<in> id_keys \<Longrightarrow> has_key (get_userinfo d u c S sess gp) k \<longleftrightarrow> grants S ''id''"
  unfolding has_key_get_userinfo
  by (auto simp: id_keys_def perm_keys_def)

lemma gu_email: "has_key (get_userinfo d u c S sess gp) ''email'' \<longleftrightarrow> grants S ''email''"
  unfolding has_key_get_userinfo
  by (simp add: id_keys_def perm_keys_def)

lemma gu_phone: "has_key (get_userinfo d u c S sess gp) ''phone'' \<longleftrightarrow> grants S ''phone''"
  unfolding has_key_get_userinfo
  by (simp add: id_keys_def perm_keys_def)

lemma gu_orgs:
  "has_key (get_userinfo d u c S sess gp) ''organizations'' \<longleftrightarrow> grants S ''organizations''"
  unfolding has_key_get_userinfo
  by (simp add: id_keys_def perm_keys_def)

lemma gu_teams:
  "has_key (get_userinfo d u c S sess gp) ''teams'' \<longleftrightarrow>
     (grants S ''organizations'' \<or> grants S ''teams'') \<and> user_teams u \<noteq> []
     \<or> grants S ''teams'' \<and> owned_teams u \<noteq> []"
  unfolding has_key_get_userinfo team_map_nonempty
  by (simp add: id_keys_def perm_keys_def) blast

subsection \<open>C1: scope-gated disclosure\<close>

text \<open>
  C1 as stated fails for the topic \<open>teams\<close>. A user who belongs to a team gets a \<open>teams\<close>
  key with scope \<open>["organizations"]\<close>, which contains none of \<open>"*"\<close>, \<open>"teams"\<close>,
  \<open>"teams/*"\<close>: the first pass over \<open>user.teams\<close> runs for either topic. And a user with
  no team who owns no organization gets no \<open>teams\<close> key with scope \<open>["*"]\<close>: the key is
  attached only when the team map is not empty.
\<close>

theorem get_userinfo_teams_counterexample:
  "has_key (get_userinfo db0 user1 client_crm [''organizations''] None False) ''teams''
   \<and> \<not> grants [''organizations''] ''teams''
   \<and> grants [''*''] ''teams''
   \<and> \<not> has_key (get_userinfo db0 user0 client_crm [''*''] None False) ''teams''"
  by (simp add: gu_teams grants_def user1_def user0_def owned_teams_def)

text \<open>
  C1 (amended): for every scope \<open>S\<close>, the keys of the topics \<open>id\<close>, \<open>email\<close>, \<open>phone\<close> and
  \<open>organizations\<close> are in the projection if and only if \<open>S\<close> contains \<open>"*"\<close>, the topic or
  the topic with \<open>"/*"\<close>. The \<open>teams\<close> key is there if and only if the scope grants
  \<open>organizations\<close> or \<open>teams\<close> and the user belongs to a team, or the scope grants \<open>teams\<close>
  and an organization the user owns has a team. Adding tokens to \<open>S\<close> never removes a key.
  With scope \<open>["id"]\<close> none of \<open>email\<close>, \<open>phone\<close>, \<open>organizations\<close>, \<open>teams\<close> is there;
  with scope \<open>["*"]\<close> \<open>email\<close>, \<open>phone\<close> and \<open>organizations\<close> are, and \<open>teams\<close> is exactly
  when the user has a team to show.
\<close>

theorem get_userinfo_disclosure:
  "(\<forall>k \<in> id_keys. has_key (get_userinfo d u c S sess gp) k \<longleftrightarrow> grants S ''id'')
   \<and> (has_key (get_userinfo d u c S sess gp) ''email'' \<longleftrightarrow> grants S ''email'')
   \<and> (has_key (get_userinfo d u c S sess gp) ''phone'' \<longleftrightarrow> grants S ''phone'')
   \<and> (has_key (get_userinfo d u c S sess gp) ''organizations'' \<longleftrightarrow> grants S ''organizations'')
   \<and> (has_key (get_userinfo d u c S sess gp) ''teams'' \<longleftrightarrow>
        (grants S ''organizations'' \<or> grants S ''teams'') \<and> user_teams u \<noteq> []
        \<or> grants S ''teams'' \<and> owned_teams u \<noteq> [])
   \<and> (\<forall>k. has_key (get_userinfo d u c S sess gp) k
          \<longrightarrow> has_key (get_userinfo d u c (S @ X) sess gp) k)
   \<and> (\<forall>k \<in> {''email'', ''phone'', ''organizations'', ''teams''}.
          \<not> has_key (get_userinfo d u c [''id''] sess gp) k)
   \<and> (\<forall>k \<in> {''email'', ''phone'', ''organizations''}.
          has_key (get_userinfo d u c [''*''] sess gp) k)
   \<and> (has_key (get_userinfo d u c [''*''] sess gp) ''teams''
          \<longleftrightarrow> user_teams u \<noteq> [] \<or> owned_teams u \<noteq> [])"
proof -
  have id: "\<forall>k \<in> id_keys. has_key (get_userinfo d u c S sess gp) k \<longleftrightarrow> grants S ''id''"
    by (simp add: gu_id)
  have mono: "\<forall>k. has_key (get_userinfo d u c S sess gp) k
                \<longrightarrow> has_key (get_userinfo d u c (S @ X) sess gp) k"
    by (simp add: get_userinfo_mono)
  have only_id: "\<forall>k \<in> {''email'', ''phone'', ''organizations'', ''teams''}.
                   \<not> has_key (get_userinfo d u c [''id''] sess gp) k"
    by (simp add: gu_email gu_phone gu_orgs gu_teams grants_def)
  have star: "\<forall>k \<in> {''email'', ''phone'', ''organizations''}.
                has_key (get_userinfo d u c [''*''] sess gp) k"
    by (simp add: gu_email gu_phone gu_orgs grants_def)
  have star_teams: "has_key (get_userinfo d u c [''*''] sess gp) ''teams''
                      \<longleftrightarrow> user_teams u \<noteq> [] \<or> owned_teams u \<noteq> []"
    by (simp add: gu_teams grants_def)
  show ?thesis
    using id mono only_id star star_teams
    by (simp only: gu_email gu_phone gu_orgs gu_teams simp_thms)
qed

theorem get_userinfo_disclosure_witness:
  "has_key (get_userinfo db0 user1 client_crm [''id'', ''teams''] None False) ''userid''
   \<and> has_key (get_userinfo db0 user1 client_crm ([''id''] @ [''teams'']) None False) ''userid''
   \<and> has_key (get_userinfo db0 user1 client_crm [''*''] None False) ''email''
   \<and> \<not> has_key (get_userinfo db0 user1 client_crm [''id''] None False) ''email''"
  using get_userinfo_disclosure [of db0 user1 client_crm "[''id'']" None False "[''teams'']"]
  by (simp add: id_keys_def grants_def)

subsection \<open>C2: the order of the checks of token\_verify\<close>

lemma outcome_resource_error:
  "outcome (resource_error e None None) = (400, Some (JStr ''error''), Some (JStr e))"
  by (simp add: outcome_def resource_error_def)

lemma outcome_api_error:
  "outcome (api_result (StatusWord ''error'') False [(''error'', JStr e)])
     = (200, Some (JStr ''error''), Some (JStr e))"
  by (simp add: outcome_def api_result_def)

lemma status_api_result_word:
  "resp_status_code (api_result (StatusWord w) j params) = 200"
  "map_of (resp_body (api_result (StatusWord w) j params)) ''status'' = Some (JStr w)"
  by (simp_all add: api_result_def update_conv')

lemma token_verify_no_resource:
  "falsy (form_resource f) \<Longrightarrow> token_verify d c f = resource_error ''no_resource'' None None"
  by (simp add: token_verify_def)

lemma token_verify_unknown_resource:
  "\<not> falsy (form_resource f) \<Longrightarrow> form_resource f \<noteq> Some ''*''
     \<Longrightarrow> token_verify d c f = resource_error ''unknown_resource'' None None"
  by (simp add: token_verify_def)

lemma token_verify_param_no_token:
  "form_resource f = Some ''*'' \<Longrightarrow> falsy (form_access_token f)
     \<Longrightarrow> token_verify d c f = resource_error ''no_token'' None None"
  by (simp add: token_verify_def falsy_def)

lemma token_verify_client_no_resources:
  "form_resource f = Some ''*'' \<Longrightarrow> \<not> falsy (form_access_token f)
     \<Longrightarrow> falsy (client_namespace c)
     \<Longrightarrow> token_verify d c f
           = api_result (StatusWord ''error'') False [(''error'', JStr ''client_no_resources'')]"
  by (simp add: token_verify_def falsy_def)

lemma token_verify_lookup:
  "form_resource f = Some ''*'' \<Longrightarrow> form_access_token f = Some tok \<Longrightarrow> tok \<noteq> []
     \<Longrightarrow> client_namespace c = Some ns \<Longrightarrow> ns \<noteq> []
     \<Longrightarrow> token_verify d c f =
          (case AuthToken_get d tok of
             None \<Rightarrow> api_result (StatusWord ''error'') False [(''error'', JStr ''no_token'')]
           | Some authtoken \<Rightarrow>
               if ns @ '':*'' \<notin> set (token_effective_scope authtoken)
               then api_result (StatusWord ''error'') False [(''error'', JStr ''access_denied'')]
               else api_result (StatusWord ''ok'') False
                      (AList.update ''clientinfo'' (JDict (clientinfo authtoken))
                         (token_params d c authtoken)))"
  by (simp add: token_verify_def falsy_def split: option.splits)

lemma token_verify_status_400:
  "resp_status_code (token_verify d c f) = 400 \<longleftrightarrow>
     falsy (form_resource f) \<or> form_resource f \<noteq> Some ''*'' \<or> falsy (form_access_token f)"
proof (cases "falsy (form_resource f) \<or> form_resource f \<noteq> Some ''*'' \<or> falsy (form_access_token f)")
  case True
  have code: "\<And>e. resp_status_code (resource_error e None None) = 400"
    by (simp add: resource_error_def)
  consider (a) "falsy (form_resource f)"
    | (b) "\<not> falsy (form_resource f)" "form_resource f \<noteq> Some ''*''"
    | (c) "form_resource f = Some ''*''" "falsy (form_access_token f)"
    using True by blast
  then have "resp_status_code (token_verify d c f) = 400"
  proof cases
    case a
    then show ?thesis by (simp add: token_verify_no_resource code)
  next
    case b
    then show ?thesis by (simp add: token_verify_unknown_resource code)
  next
    case c
    then show ?thesis by (simp add: token_verify_param_no_token code)
  qed
  with True show ?thesis by simp
next
  case False
  then obtain tok where tok: "form_resource f = Some ''*''" "form_access_token f = Some tok" "tok \<noteq> []"
    by (auto simp: falsy_def split: option.splits)
  show ?thesis
  proof (cases "falsy (client_namespace c)")
    case True
    then show ?thesis
      using False tok token_verify_client_no_resources[of f c d]
      by (simp add: status_api_result_word)
  next
    case ns: False
    then obtain ns where "client_namespace c = Some ns" "ns \<noteq> []"
      by (auto simp: falsy_def split: option.splits)
    then show ?thesis
      using False tok token_verify_lookup[of f tok c ns d]
      by (simp add: status_api_result_word split: option.splits)
  qed
qed

text \<open>
  C2: \<open>token_verify\<close> checks in this order. A missing (or empty) \<open>resource\<close> gives 400
  with code \<open>no_resource\<close>; any other resource than \<open>"*"\<close> gives 400 \<open>unknown_resource\<close>;
  a missing (or empty) token gives 400 \<open>no_token\<close>; a calling client without a namespace
  gives 200 with \<open>status: error\<close> and code \<open>client_no_resources\<close>; a token string that finds
  no row gives 200 \<open>no_token\<close>; a scope with neither \<open>namespace:resource\<close> nor
  \<open>namespace:*\<close> gives 200 \<open>access_denied\<close>. The status is 400 exactly in the three
  parameter failures, and there the response does not depend on the store or on the calling
  client.
\<close>

theorem token_verify_checks:
  "(falsy (form_resource f)
      \<longrightarrow> outcome (token_verify d c f) = (400, Some (JStr ''error''), Some (JStr ''no_resource'')))
   \<and> (\<not> falsy (form_resource f) \<and> form_resource f \<noteq> Some ''*''
      \<longrightarrow> outcome (token_verify d c f)
            = (400, Some (JStr ''error''), Some (JStr ''unknown_resource'')))
   \<and> (form_resource f = Some ''*'' \<and> falsy (form_access_token f)
      \<longrightarrow> outcome (token_verify d c f) = (400, Some (JStr ''error''), Some (JStr ''no_token'')))
   \<and> (form_resource f = Some ''*'' \<and> \<not> falsy (form_access_token f) \<and> falsy (client_namespace c)
      \<longrightarrow> outcome (token_verify d c f)
            = (200, Some (JStr ''error''), Some (JStr ''client_no_resources'')))
   \<and> (form_resource f = Some ''*'' \<and> form_access_token f = Some tok \<and> tok \<noteq> []
        \<and> client_namespace c = Some ns \<and> ns \<noteq> [] \<and> AuthToken_get d tok = None
      \<longrightarrow> outcome (token_verify d c f) = (200, Some (JStr ''error''), Some (JStr ''no_token'')))
   \<and> (form_resource f = Some ''*'' \<and> form_access_token f = Some tok \<and> tok \<noteq> []
        \<and> client_namespace c = Some ns \<and> ns \<noteq> [] \<and> AuthToken_get d tok = Some authtoken
        \<and> ns @ '':'' @ ''*'' \<notin> set (token_effective_scope authtoken)
        \<and> ns @ '':*'' \<notin> set (token_effective_scope authtoken)
      \<longrightarrow> outcome (token_verify d c f)
            = (200, Some (JStr ''error''), Some (JStr ''access_denied'')))
   \<and> (resp_status_code (token_verify d c f) = 400 \<longleftrightarrow>
        falsy (form_resource f) \<or> form_resource f \<noteq> Some ''*'' \<or> falsy (form_access_token f))
   \<and> (falsy (form_resource f) \<or> form_resource f \<noteq> Some ''*'' \<or> falsy (form_access_token f)
      \<longrightarrow> token_verify d c f = token_verify d' c' f)"
proof -
  have p1: "falsy (form_resource f)
      \<longrightarrow> outcome (token_verify d c f) = (400, Some (JStr ''error''), Some (JStr ''no_resource''))"
    by (simp add: token_verify_no_resource outcome_resource_error)
  have p2: "\<not> falsy (form_resource f) \<and> form_resource f \<noteq> Some ''*''
      \<longrightarrow> outcome (token_verify d c f)
            = (400, Some (JStr ''error''), Some (JStr ''unknown_resource''))"
    by (simp add: token_verify_unknown_resource outcome_resource_error)
  have p3: "form_resource f = Some ''*'' \<and> falsy (form_access_token f)
      \<longrightarrow> outcome (token_verify d c f) = (400, Some (JStr ''error''), Some (JStr ''no_token''))"
    by (simp add: token_verify_param_no_token outcome_resource_error)
  have p4: "form_resource f = Some ''*'' \<and> \<not> falsy (form_access_token f) \<and> falsy (client_namespace c)
      \<longrightarrow> outcome (token_verify d c f)
            = (200, Some (JStr ''error''), Some (JStr ''client_no_resources''))"
    by (simp add: token_verify_client_no_resources outcome_api_error)
  have p5: "form_resource f = Some ''*'' \<and> form_access_token f = Some tok \<and> tok \<noteq> []
        \<and> client_namespace c = Some ns \<and> ns \<noteq> [] \<and> AuthToken_get d tok = None
      \<longrightarrow> outcome (token_verify d c f) = (200, Some (JStr ''error''), Some (JStr ''no_token''))"
    by (simp add: token_verify_lookup outcome_api_error)
  have p6: "form_resource f = Some ''*'' \<and> form_access_token f = Some tok \<and> tok \<noteq> []
        \<and> client_namespace c = Some ns \<and> ns \<noteq> [] \<and> AuthToken_get d tok = Some authtoken
        \<and> ns @ '':'' @ ''*'' \<notin> set (token_effective_scope authtoken)
        \<and> ns @ '':*'' \<notin> set (token_effective_scope authtoken)
      \<longrightarrow> outcome (token_verify d c f)
            = (200, Some (JStr ''error''), Some (JStr ''access_denied''))"
    by (simp add: token_verify_lookup outcome_api_error)
  have p7: "falsy (form_resource f) \<or> form_resource f \<noteq> Some ''*'' \<or> falsy (form_access_token f)
      \<longrightarrow> token_verify d c f = token_verify d' c' f"
    using token_verify_no_resource[of f] token_verify_unknown_resource[of f]
      token_verify_param_no_token[of f]
    by (metis (full_types))
  show ?thesis
    using p1 p2 p3 p4 p5 p6 p7 token_verify_status_400[of d c f] by blast
qed

lemma db1_lookup:
  "AuthToken_get db1 ''tok1'' = Some token1"
  "AuthToken_get db1 ''tok2'' = Some token2"
  "AuthToken_get db1 ''tok3'' = Some token3"
  "AuthToken_get db1 ''nope'' = None"
  by (simp_all add: AuthToken_get_def db1_def token1_def token2_def token3_def)

theorem token_verify_checks_witness:
  "outcome (token_verify db1 client_crm (form_of (Some ''tok1'') None))
     = (400, Some (JStr ''error''), Some (JStr ''no_resource''))
   \<and> outcome (token_verify db1 client_crm (form_of (Some ''tok1'') (Some ''contacts'')))
     = (400, Some (JStr ''error''), Some (JStr ''unknown_resource''))
   \<and> outcome (token_verify db1 client_crm (form_of None (Some ''*'')))
     = (400, Some (JStr ''error''), Some (JStr ''no_token''))
   \<and> outcome (token_verify db1 client_app (form_of (Some ''tok1'') (Some ''*'')))
     = (200, Some (JStr ''error''), Some (JStr ''client_no_resources''))
   \<and> outcome (token_verify db1 client_crm (form_of (Some ''nope'') (Some ''*'')))
     = (200, Some (JStr ''error''), Some (JStr ''no_token''))
   \<and> outcome (token_verify db1 client_crm (form_of (Some ''tok1'') (Some ''*'')))
     = (200, Some (JStr ''error''), Some (JStr ''access_denied''))
   \<and> token_verify db1 client_crm (form_of None (Some ''*''))
     = token_verify db0 client_app (form_of None (Some ''*''))"
proof -
  note ev = form_of_def falsy_def client_crm_def client_app_def db1_lookup token1_def
  have a: "outcome (token_verify db1 client_crm (form_of (Some ''tok1'') None))
             = (400, Some (JStr ''error''), Some (JStr ''no_resource''))"
    using token_verify_checks [of "form_of (Some ''tok1'') None" db1 client_crm]
    by (simp add: ev)
  have b: "outcome (token_verify db1 client_crm (form_of (Some ''tok1'') (Some ''contacts'')))
             = (400, Some (JStr ''error''), Some (JStr ''unknown_resource''))"
    using token_verify_checks [of "form_of (Some ''tok1'') (Some ''contacts'')" db1 client_crm]
    by (simp add: ev)
  have c: "outcome (token_verify db1 client_crm (form_of None (Some ''*'')))
             = (400, Some (JStr ''error''), Some (JStr ''no_token''))"
    using token_verify_checks [of "form_of None (Some ''*'')" db1 client_crm]
    by (simp add: ev)
  have d: "outcome (token_verify db1 client_app (form_of (Some ''tok1'') (Some ''*'')))
             = (200, Some (JStr ''error''), Some (JStr ''client_no_resources''))"
    using token_verify_checks [of "form_of (Some ''tok1'') (Some ''*'')" db1 client_app]
    by (simp add: ev)
  have e: "outcome (token_verify db1 client_crm (form_of (Some ''nope'') (Some ''*'')))
             = (200, Some (JStr ''error''), Some (JStr ''no_token''))"
    using token_verify_checks [of "form_of (Some ''nope'') (Some ''*'')" db1 client_crm
        "''nope''" "''crm''"]
    by (simp add: ev)
  have f: "outcome (token_verify db1 client_crm (form_of (Some ''tok1'') (Some ''*'')))
             = (200, Some (JStr ''error''), Some (JStr ''access_denied''))"
    using token_verify_checks [of "form_of (Some ''tok1'') (Some ''*'')" db1 client_crm
        "''tok1''" "''crm''" token1]
    by (simp add: ev)
  have g: "token_verify db1 client_crm (form_of None (Some ''*''))
             = token_verify db0 client_app (form_of None (Some ''*''))"
    using token_verify_checks [of "form_of None (Some ''*'')" db1 client_crm _ _ _ db0 client_app]
    by (simp add: ev)
  show ?thesis
    using a b c d e f g by (intro conjI)
qed

subsection \<open>C3: the success response of token\_verify\<close>

lemma map_of_token_params:
  "map_of (token_params d c t) k =
     (if k = ''userinfo''
      then map_option (\<lambda>u. JDict (get_userinfo d u c (token_effective_scope t) None True))
             (token_user t)
      else if k = ''validity'' then Some (JInt 120) else None)"
  by (simp add: token_params_def Let_def update_conv' split: option.splits)

lemma keys_token_params:
  "dict_keys (token_params d c t)
     = {''validity''} \<union> (if token_user t = None then {} else {''userinfo''})"
  by (auto simp: token_params_def Let_def keys_update dict_keys_def split: option.splits)

lemma body_api_ok:
  "resp_body (api_result (StatusWord ''ok'') False params)
     = AList.update ''status'' (JStr ''ok'') params"
  by (simp add: api_result_def)

lemma token_verify_ok:
  assumes "form_resource f = Some ''*''" "form_access_token f = Some tok" "tok \<noteq> []"
    and "client_namespace c = Some ns" "ns \<noteq> []"
    and "AuthToken_get d tok = Some authtoken"
    and "ns @ '':*'' \<in> set (token_effective_scope authtoken)"
  shows "token_verify d c f =
           api_result (StatusWord ''ok'') False
             (AList.update ''clientinfo'' (JDict (clientinfo authtoken))
                (token_params d c authtoken))"
  using assms by (simp add: token_verify_lookup)

text \<open>
  C3: when every check passes, the response has status 200 and \<open>status: ok\<close>, a validity
  of 120, a \<open>userinfo\<close> field exactly when the token has a user (the projection of that
  user against the token's effective scope, with \<open>get_permissions\<close> set), and a
  \<open>clientinfo\<close> field built from the client that owns the token: its title, the buid
  (twice) and uuid of its owner, the owner's display name, its website, its key and its
  trusted flag.
\<close>

theorem token_verify_success:
  assumes "form_resource f = Some ''*''" "form_access_token f = Some tok" "tok \<noteq> []"
    and "client_namespace c = Some ns" "ns \<noteq> []"
    and "AuthToken_get d tok = Some authtoken"
    and "ns @ '':*'' \<in> set (token_effective_scope authtoken)"
  shows "resp_status_code (token_verify d c f) = 200
    \<and> map_of (resp_body (token_verify d c f)) ''status'' = Some (JStr ''ok'')
    \<and> map_of (resp_body (token_verify d c f)) ''validity'' = Some (JInt 120)
    \<and> map_of (resp_body (token_verify d c f)) ''userinfo''
        = (case token_user authtoken of
             None \<Rightarrow> None
           | Some u \<Rightarrow>
               Some (JDict (get_userinfo d u c (token_effective_scope authtoken) None True)))
    \<and> (has_key (resp_body (token_verify d c f)) ''userinfo'' \<longleftrightarrow> token_user authtoken \<noteq> None)
    \<and> map_of (resp_body (token_verify d c f)) ''clientinfo''
        = Some (JDict
            [(''title'', JStr (client_title (token_auth_client authtoken))),
             (''userid'', JStr (owner_buid (client_owner (token_auth_client authtoken)))),
             (''buid'', JStr (owner_buid (client_owner (token_auth_client authtoken)))),
             (''uuid'', JStr (owner_uuid (client_owner (token_auth_client authtoken)))),
             (''owner_title'', JStr (owner_pickername (client_owner (token_auth_client authtoken)))),
             (''website'', JStr (client_website (token_auth_client authtoken))),
             (''key'', JStr (client_buid (token_auth_client authtoken))),
             (''trusted'', JBool (client_trusted (token_auth_client authtoken)))])"
proof -
  let ?r = "token_verify d c f"
  have r: "?r = api_result (StatusWord ''ok'') False
             (AList.update ''clientinfo'' (JDict (clientinfo authtoken))
                (token_params d c authtoken))"
    using assms by (rule token_verify_ok)
  have code: "resp_status_code ?r = 200"
    by (simp add: r status_api_result_word)
  have st: "map_of (resp_body ?r) ''status'' = Some (JStr ''ok'')"
    by (simp add: r status_api_result_word)
  have val: "map_of (resp_body ?r) ''validity'' = Some (JInt 120)"
    by (simp add: r body_api_ok update_conv' map_of_token_params)
  have ui: "map_of (resp_body ?r) ''userinfo''
        = (case token_user authtoken of
             None \<Rightarrow> None
           | Some u \<Rightarrow>
               Some (JDict (get_userinfo d u c (token_effective_scope authtoken) None True)))"
    by (simp add: r body_api_ok update_conv' map_of_token_params split: option.splits)
  have hk: "has_key (resp_body ?r) ''userinfo'' \<longleftrightarrow> token_user authtoken \<noteq> None"
    by (simp add: r body_api_ok has_key_keys keys_update keys_token_params)
  have ci: "map_of (resp_body ?r) ''clientinfo'' = Some (JDict (clientinfo authtoken))"
    by (simp add: r body_api_ok update_conv')
  show ?thesis
    using code st val ui hk ci by (simp only: clientinfo_def simp_thms)
qed

theorem token_verify_success_witness:
  "resp_status_code (token_verify db1 client_crm (form_of (Some ''tok3'') (Some ''*''))) = 200
   \<and> map_of (resp_body (token_verify db1 client_crm (form_of (Some ''tok3'') (Some ''*''))))
        ''validity'' = Some (JInt 120)
   \<and> has_key (resp_body (token_verify db1 client_crm (form_of (Some ''tok3'') (Some ''*''))))
        ''userinfo''
   \<and> \<not> has_key (resp_body (token_verify db1 client_crm (form_of (Some ''tok2'') (Some ''*''))))
        ''userinfo''"
proof -
  note ev = form_of_def client_crm_def db1_lookup token2_def token3_def
  have a: "resp_status_code (token_verify db1 client_crm (form_of (Some ''tok3'') (Some ''*''))) = 200
     \<and> map_of (resp_body (token_verify db1 client_crm (form_of (Some ''tok3'') (Some ''*''))))
        ''validity'' = Some (JInt 120)
     \<and> has_key (resp_body (token_verify db1 client_crm (form_of (Some ''tok3'') (Some ''*''))))
        ''userinfo''"
    using token_verify_success [of "form_of (Some ''tok3'') (Some ''*'')" "''tok3''" client_crm
        "''crm''" db1 token3]
    by (simp add: ev)
  have b: "\<not> has_key (resp_body (token_verify db1 client_crm (form_of (Some ''tok2'') (Some ''*''))))
        ''userinfo''"
    using token_verify_success [of "form_of (Some ''tok2'') (Some ''*'')" "''tok2''" client_crm
        "''crm''" db1 token2]
    by (simp add: ev)
  show ?thesis using a b by simp
qed

subsection \<open>C4: token\_get\_scope\<close>

lemma startswith_take: "startswith s p \<longleftrightarrow> take (length p) s = p"
  by (induction s p rule: startswith.induct) auto

lemma take_prefix_iff: "take (length p) s = p \<longleftrightarrow> (\<exists>r. s = p @ r)"
  by (metis append_eq_conv_conj append_take_drop_id)

lemma client_resources_loop_eq:
  "client_resources_loop p items acc
     = acc @ map (drop (length p)) (filter (\<lambda>item. startswith item p) items)"
  by (induction items arbitrary: acc) simp_all

lemma loop_resourcesUnder:
  "client_resources_loop (ns @ '':'') scope [] = resourcesUnder ns scope"
  unfolding client_resources_loop_eq resourcesUnder_def
  by (induction scope) (simp_all add: startswith_take)

lemma resourcesUnder_members:
  "r \<in> set (resourcesUnder ns scope) \<longleftrightarrow> ns @ '':'' @ r \<in> set scope"
proof (induction scope)
  case Nil
  then show ?case by (simp add: resourcesUnder_def)
next
  case (Cons item scope)
  have step: "resourcesUnder ns (item # scope)
      = (if take (length ns + 1) item = ns @ '':'' then [drop (length ns + 1) item] else [])
        @ resourcesUnder ns scope"
    by (simp add: resourcesUnder_def)
  have "take (length ns + 1) item = ns @ '':'' \<and> r = drop (length ns + 1) item
          \<longleftrightarrow> item = ns @ '':'' @ r"
    using take_prefix_iff[of "ns @ '':''" item] by auto
  then show ?case
    using Cons.IH by (auto simp: step)
qed

lemma resourcesUnder_order:
  "map (\<lambda>r. ns @ '':'' @ r) (resourcesUnder ns scope)
     = filter (\<lambda>item. \<exists>r. item = ns @ '':'' @ r) scope"
proof (induction scope)
  case Nil
  then show ?case by (simp add: resourcesUnder_def)
next
  case (Cons item scope)
  have step: "resourcesUnder ns (item # scope)
      = (if take (length ns + 1) item = ns @ '':'' then [drop (length ns + 1) item] else [])
        @ resourcesUnder ns scope"
    by (simp add: resourcesUnder_def)
  have pre: "take (length ns + 1) item = ns @ '':'' \<longleftrightarrow> (\<exists>r. item = ns @ '':'' @ r)"
    using take_prefix_iff[of "ns @ '':''" item] by simp
  have rejoin: "take (length ns + 1) item = ns @ '':''
                \<Longrightarrow> ns @ '':'' @ drop (length ns + 1) item = item"
    by (metis append.assoc append_take_drop_id)
  show ?case
    using Cons.IH pre rejoin by (simp add: step)
qed

lemma token_get_scope_lookup:
  "form_access_token f = Some tok \<Longrightarrow> tok \<noteq> []
     \<Longrightarrow> client_namespace c = Some ns \<Longrightarrow> ns \<noteq> []
     \<Longrightarrow> AuthToken_get d tok = Some authtoken
     \<Longrightarrow> token_get_scope d c f =
          (if resourcesUnder ns (token_effective_scope authtoken) = []
           then api_result (StatusWord ''error'') False [(''error'', JStr ''no_access'')]
           else api_result (StatusWord ''ok'') False
                  (AList.update ''clientinfo''
                     (JDict (clientinfo authtoken
                        @ [(''scope'',
                            JList (map JStr
                              (resourcesUnder ns (token_effective_scope authtoken))))]))
                     (token_params d c authtoken)))"
  by (simp add: token_get_scope_def falsy_def Let_def loop_resourcesUnder)

text \<open>
  C4: past the token, namespace and lookup checks, \<open>token_get_scope\<close> computes the list of
  the suffixes \<open>r\<close> with \<open>namespace + ":" + r\<close> in the token's effective scope, in the order
  of the scope and with the prefix removed. When the list is empty the response is 200 with
  \<open>status: error\<close> and code \<open>no_access\<close>. Otherwise it is \<open>status: ok\<close> with the validity
  and userinfo of \<open>token_verify\<close>, and the clientinfo of \<open>token_verify\<close> extended by the
  list under \<open>scope\<close>.
\<close>

theorem token_get_scope_resources:
  assumes "form_access_token f = Some tok" "tok \<noteq> []"
    and "client_namespace c = Some ns" "ns \<noteq> []"
    and "AuthToken_get d tok = Some authtoken"
    and "rs = resourcesUnder ns (token_effective_scope authtoken)"
  shows "(\<forall>r. r \<in> set rs \<longleftrightarrow> ns @ '':'' @ r \<in> set (token_effective_scope authtoken))
    \<and> map (\<lambda>r. ns @ '':'' @ r) rs
        = filter (\<lambda>item. \<exists>r. item = ns @ '':'' @ r) (token_effective_scope authtoken)
    \<and> (rs = [] \<longrightarrow>
         outcome (token_get_scope d c f) = (200, Some (JStr ''error''), Some (JStr ''no_access'')))
    \<and> (rs \<noteq> [] \<longrightarrow>
         outcome (token_get_scope d c f) = (200, Some (JStr ''ok''), None)
         \<and> map_of (resp_body (token_get_scope d c f)) ''validity'' = Some (JInt 120)
         \<and> map_of (resp_body (token_get_scope d c f)) ''userinfo''
             = (case token_user authtoken of
                  None \<Rightarrow> None
                | Some u \<Rightarrow>
                    Some (JDict (get_userinfo d u c (token_effective_scope authtoken) None True)))
         \<and> map_of (resp_body (token_get_scope d c f)) ''clientinfo''
             = Some (JDict (clientinfo authtoken @ [(''scope'', JList (map JStr rs))])))"
proof -
  let ?r = "token_get_scope d c f"
  note r = token_get_scope_lookup [OF assms(1-5), folded assms(6)]
  have mem: "\<forall>r. r \<in> set rs \<longleftrightarrow> ns @ '':'' @ r \<in> set (token_effective_scope authtoken)"
    by (simp add: assms(6) resourcesUnder_members)
  have ord: "map (\<lambda>r. ns @ '':'' @ r) rs
        = filter (\<lambda>item. \<exists>r. item = ns @ '':'' @ r) (token_effective_scope authtoken)"
    unfolding assms(6) by (rule resourcesUnder_order)
  have none: "rs = [] \<longrightarrow>
         outcome ?r = (200, Some (JStr ''error''), Some (JStr ''no_access''))"
    by (simp add: r outcome_api_error)
  have ok: "rs \<noteq> [] \<longrightarrow> outcome ?r = (200, Some (JStr ''ok''), None)"
    by (simp add: r outcome_def status_api_result_word body_api_ok update_conv'
        map_of_token_params)
  have val: "rs \<noteq> [] \<longrightarrow> map_of (resp_body ?r) ''validity'' = Some (JInt 120)"
    by (simp add: r body_api_ok update_conv' map_of_token_params)
  have ui: "rs \<noteq> [] \<longrightarrow> map_of (resp_body ?r) ''userinfo''
             = (case token_user authtoken of
                  None \<Rightarrow> None
                | Some u \<Rightarrow>
                    Some (JDict (get_userinfo d u c (token_effective_scope authtoken) None True)))"
    by (simp add: r body_api_ok update_conv' map_of_token_params split: option.splits)
  have ci: "rs \<noteq> [] \<longrightarrow> map_of (resp_body ?r) ''clientinfo''
             = Some (JDict (clientinfo authtoken @ [(''scope'', JList (map JStr rs))]))"
    by (simp add: r body_api_ok update_conv')
  show ?thesis
    using mem ord none ok val ui ci by blast
qed

lemma resourcesUnder_samples:
  "resourcesUnder ''crm'' [''id'', ''crm:contacts'', ''crm:deals''] = [''contacts'', ''deals'']"
  "resourcesUnder ''hr'' [''id'', ''crm:contacts'', ''crm:deals''] = []"
  by (simp_all add: resourcesUnder_def)

theorem token_get_scope_resources_witness:
  "outcome (token_get_scope db1 client_crm (form_of (Some ''tok1'') None))
     = (200, Some (JStr ''ok''), None)
   \<and> map_of (resp_body (token_get_scope db1 client_crm (form_of (Some ''tok1'') None)))
        ''clientinfo''
     = Some (JDict (clientinfo token1
                      @ [(''scope'', JList [JStr ''contacts'', JStr ''deals''])]))
   \<and> outcome (token_get_scope db1 (client_crm\<lparr>client_namespace := Some ''hr''\<rparr>)
                (form_of (Some ''tok1'') None))
     = (200, Some (JStr ''error''), Some (JStr ''no_access''))"
proof -
  note ev = form_of_def client_crm_def db1_lookup token1_def resourcesUnder_samples
  have a: "outcome (token_get_scope db1 client_crm (form_of (Some ''tok1'') None))
     = (200, Some (JStr ''ok''), None)
   \<and> map_of (resp_body (token_get_scope db1 client_crm (form_of (Some ''tok1'') None)))
        ''clientinfo''
     = Some (JDict (clientinfo token1
                      @ [(''scope'', JList [JStr ''contacts'', JStr ''deals''])]))"
    using token_get_scope_resources [of "form_of (Some ''tok1'') None" "''tok1''" client_crm
        "''crm''" db1 token1 "[''contacts'', ''deals'']"]
    by (simp add: ev)
  have b: "outcome (token_get_scope db1 (client_crm\<lparr>client_namespace := Some ''hr''\<rparr>)
                (form_of (Some ''tok1'') None))
     = (200, Some (JStr ''error''), Some (JStr ''no_access''))"
    using token_get_scope_resources [of "form_of (Some ''tok1'') None" "''tok1''"
        "client_crm\<lparr>client_namespace := Some ''hr''\<rparr>" "''hr''" db1 token1 "[]"]
    by (simp add: ev)
  show ?thesis using a b by simp
qed

subsection \<open>C7: the wildcard entry decides token\_verify\<close>

text \<open>
  C7: past the parameter, namespace and lookup checks, \<open>token_verify\<close> answers \<open>ok\<close> exactly
  when \<open>namespace:*\<close> is in the token's effective scope. So for a token whose scope has
  entries under the namespace but not \<open>namespace:*\<close>, \<open>token_verify\<close> with resource
  \<open>"*"\<close> answers \<open>access_denied\<close>, while \<open>token_get_scope\<close> for the same token and calling
  client answers \<open>ok\<close> and returns the suffixes of those entries.
\<close>

theorem token_verify_wildcard_only:
  assumes "form_resource f = Some ''*''" "form_access_token f = Some tok" "tok \<noteq> []"
    and "client_namespace c = Some ns" "ns \<noteq> []"
    and "AuthToken_get d tok = Some authtoken"
  shows "(outcome (token_verify d c f) = (200, Some (JStr ''ok''), None)
            \<longleftrightarrow> ns @ '':*'' \<in> set (token_effective_scope authtoken))
    \<and> (outcome (token_verify d c f) = (200, Some (JStr ''error''), Some (JStr ''access_denied''))
            \<longleftrightarrow> ns @ '':*'' \<notin> set (token_effective_scope authtoken))
    \<and> (ns @ '':*'' \<notin> set (token_effective_scope authtoken)
        \<and> (\<exists>r. ns @ '':'' @ r \<in> set (token_effective_scope authtoken))
        \<longrightarrow> outcome (token_verify d c f)
              = (200, Some (JStr ''error''), Some (JStr ''access_denied''))
          \<and> outcome (token_get_scope d c f) = (200, Some (JStr ''ok''), None)
          \<and> resourcesUnder ns (token_effective_scope authtoken) \<noteq> []
          \<and> map_of (resp_body (token_get_scope d c f)) ''clientinfo''
              = Some (JDict (clientinfo authtoken
                   @ [(''scope'',
                       JList (map JStr (resourcesUnder ns (token_effective_scope authtoken))))])))"
proof -
  have v: "token_verify d c f =
      (if ns @ '':*'' \<notin> set (token_effective_scope authtoken)
       then api_result (StatusWord ''error'') False [(''error'', JStr ''access_denied'')]
       else api_result (StatusWord ''ok'') False
              (AList.update ''clientinfo'' (JDict (clientinfo authtoken))
                 (token_params d c authtoken)))"
    using token_verify_lookup [OF assms(1-5), of d] by (simp add: assms(6))
  have ok: "outcome (token_verify d c f) = (200, Some (JStr ''ok''), None)
            \<longleftrightarrow> ns @ '':*'' \<in> set (token_effective_scope authtoken)"
    by (simp add: v outcome_api_error)
      (simp add: outcome_def status_api_result_word body_api_ok update_conv' map_of_token_params)
  have denied: "outcome (token_verify d c f)
                  = (200, Some (JStr ''error''), Some (JStr ''access_denied''))
            \<longleftrightarrow> ns @ '':*'' \<notin> set (token_effective_scope authtoken)"
    by (simp add: v outcome_api_error)
      (simp add: outcome_def status_api_result_word body_api_ok update_conv' map_of_token_params)
  have nonempty: "(\<exists>r. ns @ '':'' @ r \<in> set (token_effective_scope authtoken))
       \<Longrightarrow> resourcesUnder ns (token_effective_scope authtoken) \<noteq> []"
    using resourcesUnder_members[of _ ns "token_effective_scope authtoken"]
    by (metis empty_iff empty_set)
  have gs: "(\<exists>r. ns @ '':'' @ r \<in> set (token_effective_scope authtoken))
       \<Longrightarrow> outcome (token_get_scope d c f) = (200, Some (JStr ''ok''), None)
          \<and> map_of (resp_body (token_get_scope d c f)) ''clientinfo''
              = Some (JDict (clientinfo authtoken
                   @ [(''scope'',
                       JList (map JStr (resourcesUnder ns (token_effective_scope authtoken))))]))"
    using nonempty
    by (simp add: token_get_scope_lookup [OF assms(2-6)] outcome_def status_api_result_word
        body_api_ok update_conv' map_of_token_params)
  show ?thesis
    using ok denied nonempty gs by blast
qed

theorem token_verify_wildcard_only_witness:
  "outcome (token_verify db1 client_crm (form_of (Some ''tok1'') (Some ''*'')))
     = (200, Some (JStr ''error''), Some (JStr ''access_denied''))
   \<and> outcome (token_get_scope db1 client_crm (form_of (Some ''tok1'') (Some ''*'')))
     = (200, Some (JStr ''ok''), None)
   \<and> map_of (resp_body (token_get_scope db1 client_crm (form_of (Some ''tok1'') (Some ''*''))))
        ''clientinfo''
     = Some (JDict (clientinfo token1
                      @ [(''scope'', JList [JStr ''contacts'', JStr ''deals''])]))
   \<and> outcome (token_verify db1 client_crm (form_of (Some ''tok3'') (Some ''*'')))
     = (200, Some (JStr ''ok''), None)"
proof -
  have ex: "\<exists>r. ''crm'' @ '':'' @ r \<in> set (token_effective_scope token1)"
    by (rule exI[of _ "''contacts''"]) (simp add: token1_def)
  have no: "''crm'' @ '':*'' \<notin> set (token_effective_scope token1)"
    by (simp add: token1_def)
  have rs: "resourcesUnder ''crm'' (token_effective_scope token1) = [''contacts'', ''deals'']"
    by (simp add: token1_def resourcesUnder_samples)
  have a: "outcome (token_verify db1 client_crm (form_of (Some ''tok1'') (Some ''*'')))
     = (200, Some (JStr ''error''), Some (JStr ''access_denied''))
   \<and> outcome (token_get_scope db1 client_crm (form_of (Some ''tok1'') (Some ''*'')))
     = (200, Some (JStr ''ok''), None)
   \<and> map_of (resp_body (token_get_scope db1 client_crm (form_of (Some ''tok1'') (Some ''*''))))
        ''clientinfo''
     = Some (JDict (clientinfo token1
                      @ [(''scope'', JList [JStr ''contacts'', JStr ''deals''])]))"
    using token_verify_wildcard_only [of "form_of (Some ''tok1'') (Some ''*'')" "''tok1''"
        client_crm "''crm''" db1 token1] ex no
    by (simp add: form_of_def client_crm_def db1_lookup rs)
  have b: "outcome (token_verify db1 client_crm (form_of (Some ''tok3'') (Some ''*'')))
     = (200, Some (JStr ''ok''), None)"
    using token_verify_wildcard_only [of "form_of (Some ''tok3'') (Some ''*'')" "''tok3''"
        client_crm "''crm''" db1 token3]
    by (simp add: form_of_def client_crm_def db1_lookup token3_def)
  show ?thesis using a b by simp
qed

subsection \<open>C5: permission resolution\<close>

lemma get_userinfo_permissions_step:
  "get_userinfo d u c S sess True = add_permissions d c u (get_userinfo d u c S sess False)"
  by (simp add: get_userinfo_def Let_def)

lemma no_permissions_without_flag:
  "map_of (get_userinfo d u c S sess False) ''permissions'' = None"
proof -
  have "''permissions'' \<notin> dict_keys (get_userinfo d u c S sess False)"
    unfolding keys_get_userinfo by (simp add: id_keys_def)
  then show ?thesis
    by (simp add: dict_keys_def map_of_eq_None_iff)
qed

lemma fold_union:
  "fold (\<lambda>p s. s \<union> g p) ps A = A \<union> (\<Union>p \<in> set ps. g p)"
  by (induction ps arbitrary: A) auto

lemma all_for_no_teams:
  "user_teams u = [] \<Longrightarrow> AuthClientTeamPermissions_all_for d c u = []"
  by (simp add: AuthClientTeamPermissions_all_for_def)

lemma team_permsset_union:
  "team_permsset d c u
     = (\<Union>g \<in> set (AuthClientTeamPermissions_all_for d c u).
          set (split_space (tcp_access_permissions g)))"
  by (simp add: team_permsset_def fold_union all_for_no_teams)

lemma finite_team_permsset: "finite (team_permsset d c u)"
  by (simp add: team_permsset_union)

lemma set_all_for:
  "set (AuthClientTeamPermissions_all_for d c u)
     = {g \<in> set (db_team_permissions d).
          tcp_auth_client g = client_buid c \<and> tcp_team g \<in> team_buid ` set (user_teams u)}"
  by (auto simp: AuthClientTeamPermissions_all_for_def)

lemma permissions_of_get_userinfo:
  "map_of (get_userinfo d u c S sess True) ''permissions'' =
     (if client_user c \<noteq> None
      then (case AuthClientUserPermissions_get d c u of
              None \<Rightarrow> None
            | Some perms \<Rightarrow> Some (JList (map JStr (split_space (ucp_access_permissions perms)))))
      else Some (JList (map JStr (sorted_list_of_set (team_permsset d c u)))))"
  unfolding get_userinfo_permissions_step
  by (simp add: add_permissions_def update_conv' no_permissions_without_flag
      split: option.splits)

text \<open>
  C5 as stated fails for a client controlled by a user: when no grant row exists for
  (client, user) the document has no \<open>permissions\<close> key at all, it is not an empty list.
\<close>

theorem permissions_absent_counterexample:
  "client_user client_app \<noteq> None
   \<and> AuthClientUserPermissions_get db0 client_app user1 = None
   \<and> \<not> has_key (get_userinfo db0 user1 client_app [''id''] None True) ''permissions''
   \<and> map_of (get_userinfo db0 user1 client_app [''id''] None True) ''permissions''
       \<noteq> Some (JList [])"
  by (simp add: has_key_get_userinfo permissions_of_get_userinfo perm_keys_def id_keys_def
      AuthClientUserPermissions_get_def db0_def client_app_def)

text \<open>
  C5 (amended): permission resolution returns a document on every input. For a client
  controlled by a user the \<open>permissions\<close> field holds the words of the direct
  (client, user) grant, and when no grant row exists the field is absent. For any other
  client the field is always present and holds, sorted and without repetition, the union
  of the words of every (client, team) grant over the teams the user belongs to; it is the
  same list whatever the order of the grant rows and of the user's teams.
\<close>

theorem permission_resolution:
  "(client_user c \<noteq> None \<and> AuthClientUserPermissions_get d c u = Some perms
      \<longrightarrow> map_of (get_userinfo d u c S sess True) ''permissions''
            = Some (JList (map JStr (split_space (ucp_access_permissions perms)))))
   \<and> (client_user c \<noteq> None \<and> AuthClientUserPermissions_get d c u = None
      \<longrightarrow> \<not> has_key (get_userinfo d u c S sess True) ''permissions'')
   \<and> (client_user c = None
      \<longrightarrow> (\<exists>ps. map_of (get_userinfo d u c S sess True) ''permissions''
                  = Some (JList (map JStr ps))
               \<and> sorted ps \<and> distinct ps
               \<and> ps = sorted_list_of_set
                        (\<Union>g \<in> {g \<in> set (db_team_permissions d).
                                  tcp_auth_client g = client_buid c
                                  \<and> tcp_team g \<in> team_buid ` set (user_teams u)}.
                           set (split_space (tcp_access_permissions g)))))
   \<and> (client_user c = None
        \<and> set (db_team_permissions d') = set (db_team_permissions d)
        \<and> set (user_teams u') = set (user_teams u)
      \<longrightarrow> map_of (get_userinfo d' u' c S' sess' True) ''permissions''
            = map_of (get_userinfo d u c S sess True) ''permissions'')"
proof -
  let ?R = "get_userinfo d u c S sess True"
  have direct: "client_user c \<noteq> None \<and> AuthClientUserPermissions_get d c u = Some perms
      \<longrightarrow> map_of ?R ''permissions''
            = Some (JList (map JStr (split_space (ucp_access_permissions perms))))"
    by (simp add: permissions_of_get_userinfo)
  have absent: "client_user c \<noteq> None \<and> AuthClientUserPermissions_get d c u = None
      \<longrightarrow> \<not> has_key ?R ''permissions''"
    by (simp add: has_key_get_userinfo perm_keys_def id_keys_def)
  have set_eq: "team_permsset d c u
      = (\<Union>g \<in> {g \<in> set (db_team_permissions d).
                  tcp_auth_client g = client_buid c
                  \<and> tcp_team g \<in> team_buid ` set (user_teams u)}.
           set (split_space (tcp_access_permissions g)))" for d u
    by (simp only: team_permsset_union set_all_for)
  have teams: "client_user c = None
      \<longrightarrow> (\<exists>ps. map_of ?R ''permissions'' = Some (JList (map JStr ps))
               \<and> sorted ps \<and> distinct ps
               \<and> ps = sorted_list_of_set
                        (\<Union>g \<in> {g \<in> set (db_team_permissions d).
                                  tcp_auth_client g = client_buid c
                                  \<and> tcp_team g \<in> team_buid ` set (user_teams u)}.
                           set (split_space (tcp_access_permissions g))))"
  proof
    assume c: "client_user c = None"
    have "map_of ?R ''permissions''
            = Some (JList (map JStr (sorted_list_of_set (team_permsset d c u))))"
      by (simp add: permissions_of_get_userinfo c)
    moreover have "sorted (sorted_list_of_set (team_permsset d c u))"
      "distinct (sorted_list_of_set (team_permsset d c u))"
      by simp_all
    ultimately show "\<exists>ps. map_of ?R ''permissions'' = Some (JList (map JStr ps))
               \<and> sorted ps \<and> distinct ps
               \<and> ps = sorted_list_of_set
                        (\<Union>g \<in> {g \<in> set (db_team_permissions d).
                                  tcp_auth_client g = client_buid c
                                  \<and> tcp_team g \<in> team_buid ` set (user_teams u)}.
                           set (split_space (tcp_access_permissions g)))"
      using set_eq[of d u] by metis
  qed
  have indep: "client_user c = None
        \<and> set (db_team_permissions d') = set (db_team_permissions d)
        \<and> set (user_teams u') = set (user_teams u)
      \<longrightarrow> map_of (get_userinfo d' u' c S' sess' True) ''permissions''
            = map_of ?R ''permissions''"
  proof
    assume a: "client_user c = None
        \<and> set (db_team_permissions d') = set (db_team_permissions d)
        \<and> set (user_teams u') = set (user_teams u)"
    then have "team_permsset d' c u' = team_permsset d c u"
      by (simp add: set_eq)
    with a show "map_of (get_userinfo d' u' c S' sess' True) ''permissions''
            = map_of ?R ''permissions''"
      by (simp add: permissions_of_get_userinfo)
  qed
  show ?thesis
    using direct absent teams indep by blast
qed

lemma sample_team_words:
  "(\<Union>g \<in> {g \<in> set (db_team_permissions db1).
              tcp_auth_client g = client_buid client_crm
              \<and> tcp_team g \<in> team_buid ` set (user_teams user1)}.
       set (split_space (tcp_access_permissions g))) = {''write'', ''read''}"
proof -
  have "team_permsset db1 client_crm user1 = {''write'', ''read''}"
    by (simp add: team_permsset_def AuthClientTeamPermissions_all_for_def db1_def
        client_crm_def user1_def team2_def insert_commute)
  then show ?thesis
    by (simp only: team_permsset_union set_all_for)
qed

lemma sample_sorted_words: "sorted_list_of_set {''write'', ''read''} = [''read'', ''write'']"
  by code_simp

lemma sample_direct_grants:
  "AuthClientUserPermissions_get db1 client_app user1
     = Some \<lparr>ucp_auth_client = ''c2'', ucp_user = ''u1'', ucp_access_permissions = ''admin''\<rparr>"
  "AuthClientUserPermissions_get db0 client_app user1 = None"
  by (simp_all add: AuthClientUserPermissions_get_def db1_def db0_def client_app_def user1_def)

theorem permission_resolution_witness:
  "map_of (get_userinfo db1 user1 client_app [] None True) ''permissions''
     = Some (JList [JStr ''admin''])
   \<and> \<not> has_key (get_userinfo db0 user1 client_app [] None True) ''permissions''
   \<and> map_of (get_userinfo db1 user1 client_crm [] None True) ''permissions''
     = Some (JList [JStr ''read'', JStr ''write''])
   \<and> map_of (get_userinfo (db1\<lparr>db_team_permissions := rev (db_team_permissions db1)\<rparr>) user1
               client_crm [''id''] None True) ''permissions''
     = map_of (get_userinfo db1 user1 client_crm [] None True) ''permissions''"
proof -
  have a: "map_of (get_userinfo db1 user1 client_app [] None True) ''permissions''
     = Some (JList [JStr ''admin''])"
    using permission_resolution [of client_app db1 user1 _ "[]" None]
    by (simp add: sample_direct_grants) (simp add: client_app_def)
  have b: "\<not> has_key (get_userinfo db0 user1 client_app [] None True) ''permissions''"
    using permission_resolution [of client_app db0 user1 _ "[]" None]
    by (simp add: sample_direct_grants) (simp add: client_app_def)
  have c: "map_of (get_userinfo db1 user1 client_crm [] None True) ''permissions''
     = Some (JList [JStr ''read'', JStr ''write''])"
    using permission_resolution [of client_crm db1 user1 _ "[]" None]
    by (simp add: sample_team_words sample_sorted_words) (simp add: client_crm_def)
  have d: "map_of (get_userinfo (db1\<lparr>db_team_permissions := rev (db_team_permissions db1)\<rparr>) user1
               client_crm [''id''] None True) ''permissions''
     = map_of (get_userinfo db1 user1 client_crm [] None True) ''permissions''"
    using permission_resolution [of client_crm db1 user1 _ "[]" None
        "db1\<lparr>db_team_permissions := rev (db_team_permissions db1)\<rparr>" user1 "[''id'']" None]
    by (simp add: client_crm_def)
  show ?thesis using a b c d by simp
qed

subsection \<open>C8: permissions are those of the calling client\<close>

text \<open>
  C8: in the success responses of \<open>token_verify\<close> and \<open>token_get_scope\<close> for a token with a
  user, \<open>userinfo\<close> is the projection computed for the calling client: its \<open>permissions\<close>
  are the calling client's direct grant for the token's user, or the sorted union of the
  calling client's team grants over that user's teams. The client that owns the token
  appears only in \<open>clientinfo\<close>.
\<close>

theorem userinfo_permissions_for_caller:
  assumes "form_access_token f = Some tok" "tok \<noteq> []"
    and "client_namespace c = Some ns" "ns \<noteq> []"
    and "AuthToken_get d tok = Some authtoken"
    and "token_user authtoken = Some u"
  shows "(form_resource f = Some ''*'' \<and> ns @ '':*'' \<in> set (token_effective_scope authtoken)
      \<longrightarrow> map_of (resp_body (token_verify d c f)) ''userinfo''
            = Some (JDict (get_userinfo d u c (token_effective_scope authtoken) None True))
          \<and> map_of (resp_body (token_verify d c f)) ''clientinfo''
            = Some (JDict (clientinfo authtoken)))
    \<and> (resourcesUnder ns (token_effective_scope authtoken) \<noteq> []
      \<longrightarrow> map_of (resp_body (token_get_scope d c f)) ''userinfo''
            = Some (JDict (get_userinfo d u c (token_effective_scope authtoken) None True))
          \<and> map_of (resp_body (token_get_scope d c f)) ''clientinfo''
            = Some (JDict (clientinfo authtoken
                 @ [(''scope'',
                     JList (map JStr (resourcesUnder ns (token_effective_scope authtoken))))])))
    \<and> map_of (get_userinfo d u c (token_effective_scope authtoken) None True) ''permissions''
        = (if client_user c \<noteq> None
           then map_option (\<lambda>perms. JList (map JStr (split_space (ucp_access_permissions perms))))
                  (AuthClientUserPermissions_get d c u)
           else Some (JList (map JStr (sorted_list_of_set
                  (\<Union>g \<in> set (AuthClientTeamPermissions_all_for d c u).
                     set (split_space (tcp_access_permissions g)))))))"
proof -
  have v: "form_resource f = Some ''*'' \<and> ns @ '':*'' \<in> set (token_effective_scope authtoken)
      \<longrightarrow> map_of (resp_body (token_verify d c f)) ''userinfo''
            = Some (JDict (get_userinfo d u c (token_effective_scope authtoken) None True))
          \<and> map_of (resp_body (token_verify d c f)) ''clientinfo''
            = Some (JDict (clientinfo authtoken))"
  proof
    assume a: "form_resource f = Some ''*''
                 \<and> ns @ '':*'' \<in> set (token_effective_scope authtoken)"
    have "token_verify d c f = api_result (StatusWord ''ok'') False
             (AList.update ''clientinfo'' (JDict (clientinfo authtoken))
                (token_params d c authtoken))"
      using a assms(1-5) token_verify_ok [of f tok c ns d authtoken] by simp
    then show "map_of (resp_body (token_verify d c f)) ''userinfo''
            = Some (JDict (get_userinfo d u c (token_effective_scope authtoken) None True))
          \<and> map_of (resp_body (token_verify d c f)) ''clientinfo''
            = Some (JDict (clientinfo authtoken))"
      by (simp add: body_api_ok update_conv' map_of_token_params assms(6))
  qed
  have g: "resourcesUnder ns (token_effective_scope authtoken) \<noteq> []
      \<longrightarrow> map_of (resp_body (token_get_scope d c f)) ''userinfo''
            = Some (JDict (get_userinfo d u c (token_effective_scope authtoken) None True))
          \<and> map_of (resp_body (token_get_scope d c f)) ''clientinfo''
            = Some (JDict (clientinfo authtoken
                 @ [(''scope'',
                     JList (map JStr (resourcesUnder ns (token_effective_scope authtoken))))]))"
    by (simp add: token_get_scope_lookup [OF assms(1-5)] body_api_ok update_conv'
        map_of_token_params assms(6))
  have p: "map_of (get_userinfo d u c (token_effective_scope authtoken) None True) ''permissions''
        = (if client_user c \<noteq> None
           then map_option (\<lambda>perms. JList (map JStr (split_space (ucp_access_permissions perms))))
                  (AuthClientUserPermissions_get d c u)
           else Some (JList (map JStr (sorted_list_of_set
                  (\<Union>g \<in> set (AuthClientTeamPermissions_all_for d c u).
                     set (split_space (tcp_access_permissions g)))))))"
    by (simp add: permissions_of_get_userinfo team_permsset_union split: option.splits)
  show ?thesis
    using v g p by (intro conjI)
qed

lemma sample_all_for_words:
  "(\<Union>g \<in> set (AuthClientTeamPermissions_all_for db1 client_crm user1).
       set (split_space (tcp_access_permissions g))) = {''write'', ''read''}"
  using sample_team_words by (simp only: set_all_for)

theorem userinfo_permissions_for_caller_witness:
  "map_of (resp_body (token_verify db1 client_crm (form_of (Some ''tok3'') (Some ''*''))))
     ''userinfo''
     = Some (JDict (get_userinfo db1 user1 client_crm (token_effective_scope token3) None True))
   \<and> map_of (get_userinfo db1 user1 client_crm (token_effective_scope token3) None True)
       ''permissions'' = Some (JList [JStr ''read'', JStr ''write''])
   \<and> map_of (get_userinfo db1 user1 (token_auth_client token3) (token_effective_scope token3)
               None True) ''permissions'' = Some (JList [JStr ''admin''])
   \<and> map_of (resp_body (token_get_scope db1 client_crm (form_of (Some ''tok3'') (Some ''*''))))
     ''userinfo''
     = Some (JDict (get_userinfo db1 user1 client_crm (token_effective_scope token3) None True))"
proof -
  have rs: "resourcesUnder ''crm'' (token_effective_scope token3) \<noteq> []"
    by (simp add: token3_def resourcesUnder_def)
  have star: "''crm'' @ '':*'' \<in> set (token_effective_scope token3)"
    by (simp add: token3_def)
  have owner: "map_of (get_userinfo db1 user1 (token_auth_client token3)
                 (token_effective_scope token3) None True) ''permissions''
                 = Some (JList [JStr ''admin''])"
    by (simp add: permissions_of_get_userinfo token3_def sample_direct_grants)
      (simp add: client_app_def)
  have caller: "map_of (resp_body (token_verify db1 client_crm (form_of (Some ''tok3'') (Some ''*''))))
     ''userinfo''
     = Some (JDict (get_userinfo db1 user1 client_crm (token_effective_scope token3) None True))
   \<and> map_of (get_userinfo db1 user1 client_crm (token_effective_scope token3) None True)
       ''permissions'' = Some (JList [JStr ''read'', JStr ''write''])
   \<and> map_of (resp_body (token_get_scope db1 client_crm (form_of (Some ''tok3'') (Some ''*''))))
     ''userinfo''
     = Some (JDict (get_userinfo db1 user1 client_crm (token_effective_scope token3) None True))"
  proof -
    have h: "form_access_token (form_of (Some ''tok3'') (Some ''*'')) = Some ''tok3''"
      "''tok3'' \<noteq> []" "client_namespace client_crm = Some ''crm''" "''crm'' \<noteq> []"
      "token_user token3 = Some user1"
      by (simp_all add: form_of_def client_crm_def token3_def)
    have res: "form_resource (form_of (Some ''tok3'') (Some ''*'')) = Some ''*''"
      by (simp add: form_of_def)
    have cu: "client_user client_crm = None"
      by (simp add: client_crm_def)
    show ?thesis
      using userinfo_permissions_for_caller [OF h(1-4) db1_lookup(3) h(5)] rs star res
      by (simp add: cu sample_all_for_words sample_sorted_words)
  qed
  show ?thesis using owner caller by simp
qed

subsection \<open>C9: the id resource\<close>

lemma get_userinfo_id_only: "get_userinfo d u c [''id''] None False = id_fields u"
  by (simp add: get_userinfo_def team_map_def)

text \<open>
  C9 as stated fails in its second half: without a truthy \<open>all\<close> flag the handler returns
  the whole \<open>id\<close> topic (nine keys, among them \<open>username\<close>), not a document with
  \<open>userid\<close> alone.
\<close>

theorem resource_id_minimal_counterexample:
  "resource_id db1 sample_getbool token1 Map.empty = Inr (id_fields user1)
   \<and> has_key (id_fields user1) ''username''
   \<and> dict_keys (id_fields user1) \<noteq> {''userid''}"
proof -
  have r: "resource_id db1 sample_getbool token1 Map.empty = Inr (id_fields user1)"
    by (simp add: resource_id_def get_userinfo_of_def token1_def get_userinfo_id_only)
  have k: "''username'' \<in> dict_keys (id_fields user1)"
    by (simp add: keys_id_fields id_keys_def)
  have n: "dict_keys (id_fields user1) \<noteq> {''userid''}"
  proof
    assume "dict_keys (id_fields user1) = {''userid''}"
    with k have "''username'' \<in> {''userid''}" by simp
    then show False by simp
  qed
  show ?thesis
    using r k n by (simp add: has_key_keys)
qed

text \<open>
  C9 (amended): for a token with a user, the id handler returns the projection of that
  user against the token's effective scope with permissions included when the caller
  passes an \<open>all\<close> flag that reads as true. Otherwise it returns the projection against the
  fixed scope \<open>["id"]\<close> without permissions: exactly the keys of the \<open>id\<close> topic
  (\<open>userid\<close>, \<open>buid\<close>, \<open>uuid\<close>, \<open>username\<close>, \<open>fullname\<close>, \<open>timezone\<close>, \<open>avatar\<close>, \<open>oldids\<close>,
  \<open>olduuids\<close>).
\<close>

theorem resource_id_projection:
  assumes "token_user authtoken = Some u"
  shows "((\<exists>v. args ''all'' = Some v \<and> getbool v = Some True)
      \<longrightarrow> resource_id d getbool authtoken args
            = Inr (get_userinfo d u (token_auth_client authtoken)
                     (token_effective_scope authtoken) None True))
    \<and> (\<not> (\<exists>v. args ''all'' = Some v \<and> getbool v = Some True)
      \<longrightarrow> resource_id d getbool authtoken args
            = Inr (get_userinfo d u (token_auth_client authtoken) [''id''] None False)
          \<and> dict_keys (get_userinfo d u (token_auth_client authtoken) [''id''] None False)
            = {''userid'', ''buid'', ''uuid'', ''username'', ''fullname'', ''timezone'',
               ''avatar'', ''oldids'', ''olduuids''}
          \<and> \<not> has_key (get_userinfo d u (token_auth_client authtoken) [''id''] None False)
                ''permissions'')"
proof -
  have keys: "dict_keys (get_userinfo d u (token_auth_client authtoken) [''id''] None False)
            = {''userid'', ''buid'', ''uuid'', ''username'', ''fullname'', ''timezone'',
               ''avatar'', ''oldids'', ''olduuids''}"
    by (simp only: get_userinfo_id_only keys_id_fields id_keys_def)
  have noperm: "\<not> has_key (get_userinfo d u (token_auth_client authtoken) [''id''] None False)
                ''permissions''"
    unfolding has_key_keys keys by simp
  have full: "(\<exists>v. args ''all'' = Some v \<and> getbool v = Some True)
      \<longrightarrow> resource_id d getbool authtoken args
            = Inr (get_userinfo d u (token_auth_client authtoken)
                     (token_effective_scope authtoken) None True)"
    using assms by (auto simp: resource_id_def get_userinfo_of_def)
  have minimal: "\<not> (\<exists>v. args ''all'' = Some v \<and> getbool v = Some True)
      \<longrightarrow> resource_id d getbool authtoken args
            = Inr (get_userinfo d u (token_auth_client authtoken) [''id''] None False)"
    using assms by (auto simp: resource_id_def get_userinfo_of_def split: option.splits)
  show ?thesis
    using keys noperm full minimal by blast
qed

theorem resource_id_projection_witness:
  "resource_id db1 sample_getbool token1 [''all'' \<mapsto> ''1'']
     = Inr (get_userinfo db1 user1 client_app [''id'', ''crm:contacts'', ''crm:deals''] None True)
   \<and> resource_id db1 sample_getbool token1 [''all'' \<mapsto> ''0'']
     = Inr (get_userinfo db1 user1 client_app [''id''] None False)
   \<and> resource_id db1 sample_getbool token1 Map.empty
     = Inr (get_userinfo db1 user1 client_app [''id''] None False)"
proof -
  have u: "token_user token1 = Some user1"
    by (simp add: token1_def)
  have tc: "token_auth_client token1 = client_app"
    "token_effective_scope token1 = [''id'', ''crm:contacts'', ''crm:deals'']"
    by (simp_all add: token1_def)
  have yes: "\<exists>v. [''all'' \<mapsto> ''1''] ''all'' = Some v \<and> sample_getbool v = Some True"
    by (simp add: sample_getbool_def)
  have no: "\<not> (\<exists>v. [''all'' \<mapsto> ''0''] ''all'' = Some v \<and> sample_getbool v = Some True)"
    by (simp add: sample_getbool_def)
  have none: "\<not> (\<exists>v. (Map.empty :: string \<rightharpoonup> string) ''all'' = Some v
                      \<and> sample_getbool v = Some True)"
    by simp
  have a: "resource_id db1 sample_getbool token1 [''all'' \<mapsto> ''1'']
     = Inr (get_userinfo db1 user1 client_app [''id'', ''crm:contacts'', ''crm:deals''] None True)"
    using resource_id_projection [OF u, of "[''all'' \<mapsto> ''1'']" sample_getbool db1] yes
    unfolding tc by blast
  have b: "resource_id db1 sample_getbool token1 [''all'' \<mapsto> ''0'']
     = Inr (get_userinfo db1 user1 client_app [''id''] None False)"
    using resource_id_projection [OF u, of "[''all'' \<mapsto> ''0'']" sample_getbool db1] no
    unfolding tc by blast
  have c: "resource_id db1 sample_getbool token1 Map.empty
     = Inr (get_userinfo db1 user1 client_app [''id''] None False)"
    using resource_id_projection [OF u, of Map.empty sample_getbool db1] none
    unfolding tc by blast
  show ?thesis using a b c by (intro conjI)
qed

subsection \<open>C10: avatar/edit\<close>

lemma sample_urls:
  "sample_urlparse ''https://x.com/a.png''
     = Inr \<lparr>url_scheme = ''https'', url_netloc = ''x.com'', url_hostname = Some ''x.com''\<rparr>"
  "sample_urlparse ''ftp://x.com/a.png''
     = Inr \<lparr>url_scheme = ''ftp'', url_netloc = ''x.com'', url_hostname = Some ''x.com''\<rparr>"
  "sample_urlparse ''https://:443/a.png''
     = Inr \<lparr>url_scheme = ''https'', url_netloc = '':443'', url_hostname = None\<rparr>"
  "sample_urlparse ''https://[x'' = Inl ValueError"
  by (simp_all add: sample_urlparse_def hostname_of_def scheme_chars_def ascii_letters_def
      ascii_lower_def Let_def)

text \<open>
  C10 as stated fails in two ways. The handler tests the network location, not the host:
  \<open>https://:443/a.png\<close> parses with network location \<open>:443\<close> and no host, and is
  accepted and stored. And a value on which \<open>urlparse\<close> itself raises, such as
  \<open>https://[x\<close>, ends in ValueError, not in a bad request.
\<close>

theorem resource_avatar_edit_counterexample:
  "sample_urlparse ''https://:443/a.png''
     = Inr \<lparr>url_scheme = ''https'', url_netloc = '':443'', url_hostname = None\<rparr>
   \<and> resource_avatar_edit sample_urlparse token1 [''avatar'' \<mapsto> ''https://:443/a.png'']
     = (token1\<lparr>token_user := Some (user1\<lparr>user_avatar := Some ''https://:443/a.png''\<rparr>)\<rparr>,
        Inr [(''avatar'', JStr ''https://:443/a.png'')])
   \<and> sample_urlparse ''https://[x'' = Inl ValueError
   \<and> resource_avatar_edit sample_urlparse token1 [''avatar'' \<mapsto> ''https://[x'']
     = (token1, Inl ValueError)"
  by (simp add: sample_urls resource_avatar_edit_def token1_def jopt_def)

text \<open>
  C10 (amended): for every supplied avatar value that \<open>urlparse\<close> parses (and a token with
  a user), the handler raises a bad request unless the parsed scheme is \<open>https\<close> and the
  parsed network location is not empty, and then the token's user is unchanged. When the
  test passes the user's avatar becomes the supplied value and the returned document has
  it under \<open>avatar\<close>. A value whose scheme parses as \<open>ftp\<close> fails.
\<close>

theorem resource_avatar_edit_validation:
  assumes "args ''avatar'' = Some avatar" "token_user authtoken = Some u"
    and "urlparse avatar = Inr parsed"
  shows "(url_scheme parsed = ''https'' \<and> url_netloc parsed \<noteq> []
      \<longrightarrow> resource_avatar_edit urlparse authtoken args
            = (authtoken\<lparr>token_user := Some (u\<lparr>user_avatar := Some avatar\<rparr>)\<rparr>,
               Inr [(''avatar'', JStr avatar)]))
    \<and> (\<not> (url_scheme parsed = ''https'' \<and> url_netloc parsed \<noteq> [])
      \<longrightarrow> resource_avatar_edit urlparse authtoken args
            = (authtoken, Inl (BadRequest ''Invalid avatar URL'')))
    \<and> (url_scheme parsed = ''ftp''
      \<longrightarrow> snd (resource_avatar_edit urlparse authtoken args)
            = Inl (BadRequest ''Invalid avatar URL'')
          \<and> token_user (fst (resource_avatar_edit urlparse authtoken args)) = Some u)"
  using assms by (simp add: resource_avatar_edit_def Let_def jopt_def)

theorem resource_avatar_edit_validation_witness:
  "resource_avatar_edit sample_urlparse token1 [''avatar'' \<mapsto> ''https://x.com/a.png'']
     = (token1\<lparr>token_user := Some (user1\<lparr>user_avatar := Some ''https://x.com/a.png''\<rparr>)\<rparr>,
        Inr [(''avatar'', JStr ''https://x.com/a.png'')])
   \<and> resource_avatar_edit sample_urlparse token1 [''avatar'' \<mapsto> ''ftp://x.com/a.png'']
     = (token1, Inl (BadRequest ''Invalid avatar URL''))"
proof -
  have u: "token_user token1 = Some user1"
    by (simp add: token1_def)
  have a: "resource_avatar_edit sample_urlparse token1 [''avatar'' \<mapsto> ''https://x.com/a.png'']
     = (token1\<lparr>token_user := Some (user1\<lparr>user_avatar := Some ''https://x.com/a.png''\<rparr>)\<rparr>,
        Inr [(''avatar'', JStr ''https://x.com/a.png'')])"
    using resource_avatar_edit_validation [of "[''avatar'' \<mapsto> ''https://x.com/a.png'']"
        "''https://x.com/a.png''" token1 user1 sample_urlparse
        "\<lparr>url_scheme = ''https'', url_netloc = ''x.com'', url_hostname = Some ''x.com''\<rparr>"]
    by (simp add: u sample_urls)
  have b: "resource_avatar_edit sample_urlparse token1 [''avatar'' \<mapsto> ''ftp://x.com/a.png'']
     = (token1, Inl (BadRequest ''Invalid avatar URL''))"
    using resource_avatar_edit_validation [of "[''avatar'' \<mapsto> ''ftp://x.com/a.png'']"
        "''ftp://x.com/a.png''" token1 user1 sample_urlparse
        "\<lparr>url_scheme = ''ftp'', url_netloc = ''x.com'', url_hostname = Some ''x.com''\<rparr>"]
    by (simp add: u sample_urls)
  show ?thesis using a b by simp
qed

subsection \<open>C6: the teams list\<close>

lemma jfield_team_entry:
  "jfield (team_entry t m) ''buid'' = Some (JStr (team_buid t))"
  "jfield (team_entry t m) ''owners''
     = Some (JBool (team_buid t = org_owners (team_organization t)))"
  "jfield (team_entry t m) ''member'' = Some (JBool m)"
  by (simp_all add: jfield_def team_entry_def is_owners_team_def)

lemma find_app:
  "find P (xs @ ys) = (case find P xs of None \<Rightarrow> find P ys | Some x \<Rightarrow> Some x)"
  by (induction xs) simp_all

lemma distinct_teams_direct:
  "distinct (map fst m) \<Longrightarrow> distinct (map fst (teams_direct ts m))"
  by (induction ts arbitrary: m) (simp_all add: distinct_update)

lemma distinct_teams_of_org:
  "distinct (map fst m) \<Longrightarrow> distinct (map fst (teams_of_org ts m))"
  by (induction ts arbitrary: m) (simp_all add: distinct_update)

lemma distinct_teams_owned:
  "distinct (map fst m) \<Longrightarrow> distinct (map fst (teams_owned orgs m))"
proof (induction orgs arbitrary: m)
  case Nil
  then show ?case by simp
next
  case (Cons a orgs)
  obtain org ts where a: "a = (org, ts)" by (cases a)
  show ?case
    unfolding a using Cons by (simp add: distinct_teams_of_org)
qed

lemma team_map_grants:
  "team_map u S =
     (if grants S ''teams''
      then teams_owned (user_organizations_owned u) (teams_direct (user_teams u) [])
      else if grants S ''organizations'' then teams_direct (user_teams u) [] else [])"
  by (auto simp: team_map_def Let_def grants_def)

lemma distinct_team_map: "distinct (map fst (team_map u S))"
  by (simp add: team_map_grants distinct_teams_owned distinct_teams_direct)

lemma map_of_teams_direct:
  "map_of (teams_direct ts m) k =
     (case find (\<lambda>t. team_buid t = k) (rev ts) of
        Some t \<Rightarrow> Some (team_entry t True)
      | None \<Rightarrow> map_of m k)"
proof (induction ts arbitrary: m)
  case Nil
  then show ?case by simp
next
  case (Cons t ts)
  show ?case
    by (simp add: Cons.IH find_app update_conv' split: option.splits)
qed

lemma map_of_teams_of_org:
  "map_of (teams_of_org ts m) k =
     (case map_of m k of
        Some e \<Rightarrow> Some e
      | None \<Rightarrow> map_option (\<lambda>t. team_entry t False) (find (\<lambda>t. team_buid t = k) ts))"
proof (induction ts arbitrary: m)
  case Nil
  then show ?case by (simp split: option.splits)
next
  case (Cons t ts)
  have key: "team_buid t \<notin> set (map fst m) \<longleftrightarrow> map_of m (team_buid t) = None"
    by (simp add: map_of_eq_None_iff)
  show ?case
  proof (cases "map_of m (team_buid t)")
    case None
    then show ?thesis
      using key by (simp add: Cons.IH update_conv' split: option.splits)
  next
    case (Some e)
    then show ?thesis
      using key by (auto simp: Cons.IH split: option.splits)
  qed
qed

lemma map_of_teams_owned:
  "map_of (teams_owned orgs m) k =
     (case map_of m k of
        Some e \<Rightarrow> Some e
      | None \<Rightarrow> map_option (\<lambda>t. team_entry t False)
                  (find (\<lambda>t. team_buid t = k) (concat (map snd orgs))))"
proof (induction orgs arbitrary: m)
  case Nil
  then show ?case by (simp split: option.splits)
next
  case (Cons a orgs)
  obtain org ts where a: "a = (org, ts)" by (cases a)
  show ?case
    unfolding a
    by (simp add: Cons.IH map_of_teams_of_org find_app split: option.splits)
qed

lemma map_of_team_map:
  "map_of (team_map u S) k =
     (if grants S ''teams''
      then (case find (\<lambda>t. team_buid t = k) (rev (user_teams u)) of
              Some t \<Rightarrow> Some (team_entry t True)
            | None \<Rightarrow> map_option (\<lambda>t. team_entry t False)
                        (find (\<lambda>t. team_buid t = k) (owned_teams u)))
      else if grants S ''organizations''
      then map_option (\<lambda>t. team_entry t True)
             (find (\<lambda>t. team_buid t = k) (rev (user_teams u)))
      else None)"
  by (simp add: team_map_grants map_of_teams_owned map_of_teams_direct owned_teams_def
      split: option.splits)

lemma find_SomeD: "find P xs = Some x \<Longrightarrow> P x \<and> x \<in> set xs"
  by (induction xs) (auto split: if_splits)

lemma team_map_entry:
  assumes "(k, e) \<in> set (team_map u S)"
  shows "\<exists>t \<in> set (user_teams u) \<union> set (owned_teams u).
           team_buid t = k \<and> e = team_entry t (k \<in> team_buid ` set (user_teams u))"
proof -
  let ?P = "\<lambda>t. team_buid t = k"
  have m: "map_of (team_map u S) k = Some e"
    using assms distinct_team_map by simp
  show ?thesis
  proof (cases "find ?P (rev (user_teams u))")
    case None
    then have notdirect: "k \<notin> team_buid ` set (user_teams u)"
      by (auto simp: find_None_iff)
    from m None obtain t where t: "find ?P (owned_teams u) = Some t" "e = team_entry t False"
      by (auto simp: map_of_team_map split: if_splits)
    from find_SomeD[OF t(1)] have "team_buid t = k" "t \<in> set (owned_teams u)"
      by simp_all
    with t(2) notdirect show ?thesis by auto
  next
    case (Some t)
    from find_SomeD[OF Some] have t: "team_buid t = k" "t \<in> set (user_teams u)"
      by simp_all
    then have direct: "k \<in> team_buid ` set (user_teams u)"
      by auto
    from m Some have "e = team_entry t True"
      by (auto simp: map_of_team_map split: if_splits)
    with t direct show ?thesis by auto
  qed
qed

lemma map_of_add_permissions_other:
  "k \<noteq> ''permissions'' \<Longrightarrow> map_of (add_permissions d c u m) k = map_of m k"
  by (simp add: add_permissions_def update_conv' split: option.splits)

lemma map_of_if_update:
  "k' \<noteq> k \<Longrightarrow> map_of (if b then AList.update k v m else m) k' = map_of m k'"
  by (simp add: update_conv')

lemma map_of_case_update:
  "k' \<noteq> k \<Longrightarrow> map_of (case x of None \<Rightarrow> m | Some s \<Rightarrow> AList.update k (f s) m) k' = map_of m k'"
  by (simp add: update_conv' split: option.splits)

lemma map_of_if_id_teams: "map_of (if b then id_fields u else []) ''teams'' = None"
  by (simp add: id_fields_def)

lemma map_of_if_perms:
  "k \<noteq> ''permissions''
     \<Longrightarrow> map_of (if gp then add_permissions d c u m else m) k = map_of m k"
  by (simp add: map_of_add_permissions_other)

lemma map_of_if_update_same:
  "map_of (if b then AList.update k v m else m) k = (if b then Some v else map_of m k)"
  by (simp add: update_conv')

lemma teams_of_get_userinfo:
  "map_of (get_userinfo d u c S sess gp) ''teams''
     = (if team_map u S \<noteq> [] then Some (JList (map snd (team_map u S))) else None)"
  unfolding get_userinfo_def Let_def
  by (simp add: map_of_if_perms map_of_if_update_same map_of_if_update map_of_case_update
      map_of_if_id_teams split del: if_split cong: if_cong)

text \<open>
  C6: the \<open>teams\<close> field is the list of the values of the team map. In it no team buid
  occurs twice. Every entry is built from a team \<open>t\<close> the user belongs to or a team of an
  organization the user owns: its \<open>buid\<close> is that of \<open>t\<close>, its \<open>member\<close> flag is true
  exactly when the user belongs to the team with that buid (so direct membership wins, and
  a team seen only through ownership has \<open>member\<close> false), and its \<open>owners\<close> flag is true
  exactly when \<open>t\<close> is the owners team of its organization. When the scope grants
  \<open>teams\<close>, every such team has an entry.
\<close>

theorem teams_list_entries:
  "distinct (map (\<lambda>e. jfield e ''buid'') (map snd (team_map u S)))
   \<and> map_of (get_userinfo d u c S sess gp) ''teams''
       = (if team_map u S \<noteq> [] then Some (JList (map snd (team_map u S))) else None)
   \<and> (\<forall>e \<in> set (map snd (team_map u S)).
         \<exists>t \<in> set (user_teams u) \<union> set (owned_teams u).
           jfield e ''buid'' = Some (JStr (team_buid t))
           \<and> jfield e ''member''
               = Some (JBool (team_buid t \<in> team_buid ` set (user_teams u)))
           \<and> jfield e ''owners''
               = Some (JBool (team_buid t = org_owners (team_organization t))))
   \<and> (grants S ''teams'' \<longrightarrow>
         (\<forall>t \<in> set (user_teams u) \<union> set (owned_teams u).
            \<exists>e \<in> set (map snd (team_map u S)).
              jfield e ''buid'' = Some (JStr (team_buid t))))"
proof -
  let ?M = "team_map u S"
  have key_field: "jfield e ''buid'' = Some (JStr k)" if "(k, e) \<in> set ?M" for k e
    using team_map_entry[OF that] by (auto simp: jfield_team_entry)
  have same: "map (\<lambda>e. jfield e ''buid'') (map snd ?M) = map (\<lambda>k. Some (JStr k)) (map fst ?M)"
    using key_field by (auto simp: map_eq_conv)
  have inj: "inj_on (\<lambda>k. Some (JStr k)) (set (map fst ?M))"
    by (simp add: inj_on_def)
  have "distinct (map (\<lambda>k. Some (JStr k)) (map fst ?M))"
    using distinct_team_map[of u S] inj by (simp only: distinct_map simp_thms)
  then have once: "distinct (map (\<lambda>e. jfield e ''buid'') (map snd ?M))"
    by (simp only: same)
  have entries: "\<forall>e \<in> set (map snd ?M).
         \<exists>t \<in> set (user_teams u) \<union> set (owned_teams u).
           jfield e ''buid'' = Some (JStr (team_buid t))
           \<and> jfield e ''member''
               = Some (JBool (team_buid t \<in> team_buid ` set (user_teams u)))
           \<and> jfield e ''owners''
               = Some (JBool (team_buid t = org_owners (team_organization t)))"
  proof
    fix e assume "e \<in> set (map snd ?M)"
    then obtain k where "(k, e) \<in> set ?M" by auto
    from team_map_entry[OF this] obtain t
      where t: "t \<in> set (user_teams u) \<union> set (owned_teams u)" "team_buid t = k"
        "e = team_entry t (k \<in> team_buid ` set (user_teams u))"
      by blast
    show "\<exists>t \<in> set (user_teams u) \<union> set (owned_teams u).
           jfield e ''buid'' = Some (JStr (team_buid t))
           \<and> jfield e ''member''
               = Some (JBool (team_buid t \<in> team_buid ` set (user_teams u)))
           \<and> jfield e ''owners''
               = Some (JBool (team_buid t = org_owners (team_organization t)))"
      using t by (intro bexI[of _ t]) (simp_all add: jfield_team_entry)
  qed
  have all: "grants S ''teams'' \<longrightarrow>
         (\<forall>t \<in> set (user_teams u) \<union> set (owned_teams u).
            \<exists>e \<in> set (map snd ?M). jfield e ''buid'' = Some (JStr (team_buid t)))"
  proof (intro impI ballI)
    fix t assume g: "grants S ''teams''" and t: "t \<in> set (user_teams u) \<union> set (owned_teams u)"
    then have "team_buid t \<in> dict_keys ?M"
      by (auto simp: keys_team_map)
    then obtain e where e: "(team_buid t, e) \<in> set ?M"
      by (auto simp: dict_keys_def)
    then have "e \<in> set (map snd ?M)" by force
    with key_field[OF e]
    show "\<exists>e \<in> set (map snd ?M). jfield e ''buid'' = Some (JStr (team_buid t))"
      by blast
  qed
  show ?thesis
    using once entries all teams_of_get_userinfo[of d u c S sess gp] by (intro conjI)
qed

lemma sample_team_map:
  "team_map user1 [''teams''] = [(''t2'', team_entry team2 True), (''t1'', team_entry team1 False)]"
  by (simp add: team_map_def user1_def team1_def team2_def)

theorem teams_list_entries_witness:
  "map_of (get_userinfo db0 user1 client_crm [''teams''] None False) ''teams''
     = Some (JList [team_entry team2 True, team_entry team1 False])
   \<and> distinct [jfield (team_entry team2 True) ''buid'', jfield (team_entry team1 False) ''buid'']
   \<and> (\<exists>e \<in> {team_entry team2 True, team_entry team1 False}.
         jfield e ''buid'' = Some (JStr ''t2''))
   \<and> (\<exists>t \<in> set (user_teams user1) \<union> set (owned_teams user1).
         jfield (team_entry team1 False) ''buid'' = Some (JStr (team_buid t))
         \<and> jfield (team_entry team1 False) ''member''
             = Some (JBool (team_buid t \<in> team_buid ` set (user_teams user1)))
         \<and> jfield (team_entry team1 False) ''owners''
             = Some (JBool (team_buid t = org_owners (team_organization t))))"
proof -
  note t = teams_list_entries [of user1 "[''teams'']" db0 client_crm None False,
      unfolded sample_team_map]
  have g: "grants [''teams''] ''teams''"
    by (simp add: grants_def)
  have t2: "team2 \<in> set (user_teams user1) \<union> set (owned_teams user1)" "team_buid team2 = ''t2''"
    by (simp_all add: user1_def team2_def)
  have a: "map_of (get_userinfo db0 user1 client_crm [''teams''] None False) ''teams''
     = Some (JList [team_entry team2 True, team_entry team1 False])"
    using t by simp
  have b: "distinct [jfield (team_entry team2 True) ''buid'',
                     jfield (team_entry team1 False) ''buid'']"
    using t by simp
  have c: "\<exists>e \<in> {team_entry team2 True, team_entry team1 False}.
         jfield e ''buid'' = Some (JStr ''t2'')"
  proof -
    from t g have "\<forall>t \<in> set (user_teams user1) \<union> set (owned_teams user1).
            \<exists>e \<in> set (map snd [(''t2'', team_entry team2 True),
                                   (''t1'', team_entry team1 False)]).
              jfield e ''buid'' = Some (JStr (team_buid t))"
      by blast
    with t2(1) have "\<exists>e \<in> set (map snd [(''t2'', team_entry team2 True),
                                   (''t1'', team_entry team1 False)]).
              jfield e ''buid'' = Some (JStr (team_buid team2))"
      by blast
    then show ?thesis
      by (simp add: t2(2))
  qed
  have d: "\<exists>t \<in> set (user_teams user1) \<union> set (owned_teams user1).
         jfield (team_entry team1 False) ''buid'' = Some (JStr (team_buid t))
         \<and> jfield (team_entry team1 False) ''member''
             = Some (JBool (team_buid t \<in> team_buid ` set (user_teams user1)))
         \<and> jfield (team_entry team1 False) ''owners''
             = Some (JBool (team_buid t = org_owners (team_organization t)))"
    using t by simp
  show ?thesis
    using a b c d by (intro conjI)
qed

end
